theory Spec2Isabelle
  imports Complex_Main "HOL-Library.Log_Nat"
begin

section \<open>Arithmetic of \<^verbatim>\<open>gdouble\<close>\<close>

text \<open>
  \<^verbatim>\<open>gtkrange.c\<close> computes with \<^verbatim>\<open>gdouble\<close>, the IEEE 754 binary64 format.
  A finite double is a rational number, so a \<^verbatim>\<open>gdouble\<close> is modelled as a \<^typ>\<open>real\<close>,
  and every arithmetic operation of the source is the exact operation followed by
  \<open>b64\<close>, rounding to the nearest number with a 53-bit significand, ties to the even
  significand. Comparisons, \<^verbatim>\<open>fabs\<close>, unary minus, \<^verbatim>\<open>floor\<close> and the macros
  \<^verbatim>\<open>MIN\<close>, \<^verbatim>\<open>MAX\<close>, \<^verbatim>\<open>CLAMP\<close> are exact in binary64 and are modelled without rounding.

  Limits of the model: every operation is rounded on its own (no fused multiply-add, no
  extended precision); the exponent range is unbounded (no overflow to infinity, no
  subnormal numbers); there is one zero, no NaN and no infinity. Where the source can
  divide by zero, the model says so explicitly.

  So \<open>b64\<close> is the rounding of the machine exactly when its result is zero or normal:
  at least \<open>2 ^ - 1022\<close> and at most \<^verbatim>\<open>G_MAXDOUBLE\<close> \<open>= (2 ^ 53 - 1) * 2 ^ 971\<close> in
  magnitude. Beyond \<^verbatim>\<open>G_MAXDOUBLE\<close> the machine gives an infinity, and below \<open>2 ^ - 1022\<close>
  it rounds to a multiple of \<open>2 ^ - 1074\<close>.
\<close>

definition expo :: "real \<Rightarrow> int" where
  \<comment> \<open>for \<open>0 < x\<close>: the exponent \<open>e\<close> with \<open>2 powi e \<le> x < 2 powi (e + 1)\<close>\<close>
  "expo x = (if 1 \<le> x then bitlen \<lfloor>x\<rfloor> - 1 else - bitlen (\<lceil>1 / x\<rceil> - 1))"

definition round_even :: "real \<Rightarrow> int" where
  "round_even q = (let f = \<lfloor>q\<rfloor>; d = q - of_int f in
     if d < 1 / 2 then f else if 1 / 2 < d then f + 1 else if even f then f else f + 1)"

definition b64 :: "real \<Rightarrow> real" where
  "b64 x = (if x = 0 then 0 else
     let e = expo \<bar>x\<bar> - 52 in
     sgn x * of_int (round_even (\<bar>x\<bar> / 2 powi e)) * 2 powi e)"

definition G_MAXDOUBLE :: real where
  "G_MAXDOUBLE = (2 ^ 53 - 1) * 2 ^ 971"

definition normal_double :: "real \<Rightarrow> bool" where
  "normal_double x = (x = 0 \<or> (1 / 2 ^ 1022 \<le> \<bar>x\<bar> \<and> \<bar>x\<bar> \<le> G_MAXDOUBLE))"

definition dadd :: "real \<Rightarrow> real \<Rightarrow> real" where
  "dadd a b = b64 (a + b)"

definition dsub :: "real \<Rightarrow> real \<Rightarrow> real" where
  "dsub a b = b64 (a - b)"

definition dmul :: "real \<Rightarrow> real \<Rightarrow> real" where
  "dmul a b = b64 (a * b)"

definition ddiv :: "real \<Rightarrow> real \<Rightarrow> real" where
  \<comment> \<open>only used where the divisor is not zero\<close>
  "ddiv a b = b64 (a / b)"

definition double_to_gint :: "real \<Rightarrow> int option" where
  \<comment> \<open>conversion of a double to \<^verbatim>\<open>gint\<close>: truncation towards zero, undefined
      behaviour in C when the result does not fit 32 bits\<close>
  "double_to_gint d =
     (let i = (if 0 \<le> d then \<lfloor>d\<rfloor> else \<lceil>d\<rceil>)
      in if - (2 ^ 31) \<le> i \<and> i < 2 ^ 31 then Some i else None)"

text \<open>The GLib macros, as \<^verbatim>\<open>gmacros.h\<close> defines them:
  \<^verbatim>\<open>MAX(a,b) = ((a) > (b)) ? (a) : (b)\<close>, \<^verbatim>\<open>MIN(a,b) = ((a) < (b)) ? (a) : (b)\<close>,
  \<^verbatim>\<open>CLAMP(x,low,high) = ((x) > (high)) ? (high) : (((x) < (low)) ? (low) : (x))\<close>.\<close>

definition MAX_macro :: "real \<Rightarrow> real \<Rightarrow> real" where
  "MAX_macro a b = (if a > b then a else b)"

definition MIN_macro :: "real \<Rightarrow> real \<Rightarrow> real" where
  "MIN_macro a b = (if a < b then a else b)"

definition CLAMP_macro :: "real \<Rightarrow> real \<Rightarrow> real \<Rightarrow> real" where
  "CLAMP_macro x low high = (if x > high then high else if x < low then low else x)"

section \<open>Data model\<close>

datatype GtkOrientation = GTK_ORIENTATION_HORIZONTAL | GTK_ORIENTATION_VERTICAL

datatype GtkTextDirection = GTK_TEXT_DIR_NONE | GTK_TEXT_DIR_LTR | GTK_TEXT_DIR_RTL

datatype GtkScrollType =
    GTK_SCROLL_NONE | GTK_SCROLL_JUMP
  | GTK_SCROLL_STEP_BACKWARD | GTK_SCROLL_STEP_FORWARD
  | GTK_SCROLL_PAGE_BACKWARD | GTK_SCROLL_PAGE_FORWARD
  | GTK_SCROLL_STEP_UP | GTK_SCROLL_STEP_DOWN
  | GTK_SCROLL_PAGE_UP | GTK_SCROLL_PAGE_DOWN
  | GTK_SCROLL_STEP_LEFT | GTK_SCROLL_STEP_RIGHT
  | GTK_SCROLL_PAGE_LEFT | GTK_SCROLL_PAGE_RIGHT
  | GTK_SCROLL_START | GTK_SCROLL_END

text \<open>The two child widgets a grab can name; \<^verbatim>\<open>NULL\<close> is \<open>None\<close>.\<close>

datatype GtkRangePart = slider_widget | trough_widget

text \<open>The adjustment is an object of \<^verbatim>\<open>gtkadjustment.c\<close>; its getters read these fields.\<close>

record GtkAdjustment =
  gtk_adjustment_get_value :: real
  gtk_adjustment_get_lower :: real
  gtk_adjustment_get_upper :: real
  gtk_adjustment_get_step_increment :: real
  gtk_adjustment_get_page_increment :: real
  gtk_adjustment_get_page_size :: real

record GtkAllocation =
  alloc_x :: int
  alloc_y :: int
  alloc_width :: int
  alloc_height :: int

record GtkRangeStepTimer =
  timeout_id :: nat
  timer_step :: GtkScrollType

datatype adjustment_call = Set_value real | Animate_to_value real

text \<open>
  The fields of \<^verbatim>\<open>struct _GtkRangePrivate\<close> that the modelled functions use, followed
  by what these functions read from the widget and its gestures (text direction,
  allocations, size, drag offset, registered callbacks) and by a log of what they do to
  the outside: the \<^verbatim>\<open>change-value\<close> emissions, the calls into the adjustment and the
  error bells. \<^verbatim>\<open>gint\<close> fields are \<^typ>\<open>int\<close>; the modelled code adds and subtracts
  pixel coordinates only. \<^verbatim>\<open>n_marks\<close> is the length of \<open>marks\<close>.
\<close>

record GtkRange =
  mouse_x :: int
  mouse_y :: int
  grab_location :: "GtkRangePart option"
  timer :: "GtkRangeStepTimer option"
  adjustment :: GtkAdjustment
  orientation :: GtkOrientation
  fill_level :: real
  marks :: "real list"
  round_digits :: int
  slide_initial_slider_position :: int
  slide_initial_coordinate_delta :: int
  flippable :: bool
  inverted :: bool
  zoom :: bool
  restrict_to_fill_level :: bool
  in_drag :: bool
  autoscroll_mode :: GtkScrollType
  autoscroll_id :: nat
  gtk_widget_get_direction :: GtkTextDirection
  slider_alloc :: GtkAllocation
  trough_alloc :: GtkAllocation
  gtk_widget_get_width :: int
  gtk_widget_get_height :: int
  gtk_gesture_drag_get_offset :: "(real \<times> real) option"
  tick_callbacks :: "nat set"
  tick_callback_id :: nat
  timeout_sources :: "nat set"
  change_value_emitted :: "(GtkScrollType \<times> real) list"
  adjustment_calls :: "adjustment_call list"
  error_bells :: nat

text \<open>
  What lies outside \<^verbatim>\<open>gtkrange.c\<close> and acts on the adjustment: the handlers of
  \<^verbatim>\<open>adjust-bounds\<close> and the two setters of \<^verbatim>\<open>gtkadjustment.c\<close>. They are parameters
  of the model. The class handler \<^verbatim>\<open>gtk_range_real_change_value\<close> is taken to be the only
  handler of \<^verbatim>\<open>change-value\<close>.
\<close>

record Collaborators =
  adjust_bounds :: "real \<Rightarrow> GtkAdjustment \<Rightarrow> GtkAdjustment"
  gtk_adjustment_set_value :: "real \<Rightarrow> GtkAdjustment \<Rightarrow> GtkAdjustment"
  gtk_adjustment_animate_to_value :: "real \<Rightarrow> GtkAdjustment \<Rightarrow> GtkAdjustment"

section \<open>Effective inversion and the inverse geometry\<close>

definition should_invert :: "GtkRange \<Rightarrow> bool" where
  "should_invert rng =
     (if orientation rng = GTK_ORIENTATION_HORIZONTAL then
        (inverted rng \<and> \<not> flippable rng) \<or>
        (inverted rng \<and> flippable rng \<and> gtk_widget_get_direction rng = GTK_TEXT_DIR_LTR) \<or>
        (\<not> inverted rng \<and> flippable rng \<and> gtk_widget_get_direction rng = GTK_TEXT_DIR_RTL)
      else inverted rng)"

definition trough_length :: "GtkRange \<Rightarrow> int" where
  "trough_length rng =
     (if orientation rng = GTK_ORIENTATION_VERTICAL then alloc_height (trough_alloc rng)
      else alloc_width (trough_alloc rng))"

definition trough_start :: "GtkRange \<Rightarrow> int" where
  "trough_start rng =
     (if orientation rng = GTK_ORIENTATION_VERTICAL then alloc_y (trough_alloc rng)
      else alloc_x (trough_alloc rng))"

definition slider_length :: "GtkRange \<Rightarrow> int" where
  "slider_length rng =
     (if orientation rng = GTK_ORIENTATION_VERTICAL then alloc_height (slider_alloc rng)
      else alloc_width (slider_alloc rng))"

definition coord_to_value :: "GtkRange \<Rightarrow> real \<Rightarrow> real" where
  "coord_to_value rng coord =
     (let frac = (if trough_length rng = slider_length rng then 1
                  else ddiv (MAX_macro 0 (dsub coord (of_int (trough_start rng))))
                            (of_int (trough_length rng - slider_length rng)));
          frac = (if should_invert rng then dsub 1 frac else frac)
      in dadd (gtk_adjustment_get_lower (adjustment rng))
              (dmul frac
                 (dsub (dsub (gtk_adjustment_get_upper (adjustment rng))
                             (gtk_adjustment_get_lower (adjustment rng)))
                       (gtk_adjustment_get_page_size (adjustment rng)))))"

section \<open>The value-change funnel\<close>

text \<open>
  The loop \<^verbatim>\<open>while (i--) power *= 10;\<close> started with \<^verbatim>\<open>i = round_digits\<close>. Its
  products are those of the machine as long as they do not exceed \<^verbatim>\<open>G_MAXDOUBLE\<close>, that
  is for up to \<open>308\<close> factors; from the 309th on the machine's power is an infinity.
\<close>

fun power_loop :: "nat \<Rightarrow> real \<Rightarrow> real" where
  "power_loop 0 pwr = pwr"
| "power_loop (Suc i) pwr = power_loop i (dmul pwr 10)"

definition gtk_range_real_change_value ::
  "Collaborators \<Rightarrow> GtkRange \<Rightarrow> GtkScrollType \<Rightarrow> real \<Rightarrow> bool \<times> GtkRange" where
  "gtk_range_real_change_value C rng scroll v =
     (let adj = adjust_bounds C v (adjustment rng);
          val = (if restrict_to_fill_level rng
                 then MIN_macro v (MAX_macro (gtk_adjustment_get_lower adj) (fill_level rng))
                 else v);
          val = CLAMP_macro val (gtk_adjustment_get_lower adj)
                  (dsub (gtk_adjustment_get_upper adj) (gtk_adjustment_get_page_size adj));
          val = (if 0 \<le> round_digits rng
                 then (let pwr = power_loop (nat (round_digits rng)) 1
                       in ddiv (of_int \<lfloor>dadd (dmul val pwr) (1 / 2)\<rfloor>) pwr)
                 else val)
      in (False,
          if in_drag rng \<or> autoscroll_id rng \<noteq> 0
          then rng\<lparr>adjustment := gtk_adjustment_set_value C val adj,
                   adjustment_calls := adjustment_calls rng @ [Set_value val]\<rparr>
          else rng\<lparr>adjustment := gtk_adjustment_animate_to_value C val adj,
                   adjustment_calls := adjustment_calls rng @ [Animate_to_value val]\<rparr>))"

text \<open>\<^verbatim>\<open>g_signal_emit (range, signals[CHANGE_VALUE], 0, scroll, value, &handled)\<close>\<close>

definition emit_change_value ::
  "Collaborators \<Rightarrow> GtkRange \<Rightarrow> GtkScrollType \<Rightarrow> real \<Rightarrow> bool \<times> GtkRange" where
  "emit_change_value C rng scroll v =
     gtk_range_real_change_value C
       (rng\<lparr>change_value_emitted := change_value_emitted rng @ [(scroll, v)]\<rparr>) scroll v"

text \<open>
  Steps 2 to 4 of the funnel in the words of the specification: cap at
  \<open>max(lower, fill_level)\<close>, clamp into \<open>[lower, upper - page_size]\<close>, round as
  \<open>floor(value * 10^digits + 0.5) / 10^digits\<close>, the arithmetic being that of doubles.
\<close>

definition funnel_cap :: "bool \<Rightarrow> real \<Rightarrow> real \<Rightarrow> real \<Rightarrow> real" where
  "funnel_cap restrict lower fill v = (if restrict then min v (max lower fill) else v)"

definition funnel_clamp :: "real \<Rightarrow> real \<Rightarrow> real \<Rightarrow> real" where
  "funnel_clamp lower high v = max lower (min high v)"

text \<open>\<open>10 ^ n\<close> as a double: \<open>n\<close> factors \<open>10\<close>, each product rounded.\<close>

fun double_pow10 :: "nat \<Rightarrow> real" where
  "double_pow10 0 = 1"
| "double_pow10 (Suc n) = dmul (double_pow10 n) 10"

definition funnel_round :: "int \<Rightarrow> real \<Rightarrow> real" where
  "funnel_round digits v =
     (if 0 \<le> digits
      then ddiv (of_int \<lfloor>dadd (dmul v (double_pow10 (nat digits))) (1 / 2)\<rfloor>)
                (double_pow10 (nat digits))
      else v)"

definition funnel_value :: "GtkRange \<Rightarrow> GtkAdjustment \<Rightarrow> real \<Rightarrow> real" where
  "funnel_value rng adj v =
     funnel_round (round_digits rng)
       (funnel_clamp (gtk_adjustment_get_lower adj)
          (dsub (gtk_adjustment_get_upper adj) (gtk_adjustment_get_page_size adj))
          (funnel_cap (restrict_to_fill_level rng) (gtk_adjustment_get_lower adj)
             (fill_level rng) v))"

text \<open>
  The handler stays within the range of the doubles: the upper end of the target
  interval and, when the handler rounds, the power of ten, the product, the sum and the
  quotient are each zero or normal. The loop of the handler multiplies by \<open>10\<close> once for
  each digit, so from \<open>round_digits = 309\<close> on its power is an infinity, which has no
  counterpart here.
\<close>

definition funnel_in_range :: "GtkRange \<Rightarrow> GtkAdjustment \<Rightarrow> real \<Rightarrow> bool" where
  "funnel_in_range rng adj v =
     (let high = dsub (gtk_adjustment_get_upper adj) (gtk_adjustment_get_page_size adj);
          val = funnel_clamp (gtk_adjustment_get_lower adj) high
                  (funnel_cap (restrict_to_fill_level rng) (gtk_adjustment_get_lower adj)
                     (fill_level rng) v);
          pwr = double_pow10 (nat (round_digits rng))
      in normal_double high \<and>
         (0 \<le> round_digits rng \<longrightarrow>
            normal_double pwr \<and>
            normal_double (dmul val pwr) \<and>
            normal_double (dadd (dmul val pwr) (1 / 2)) \<and>
            normal_double (ddiv (of_int \<lfloor>dadd (dmul val pwr) (1 / 2)\<rfloor>) pwr)))"

section \<open>Marks and the scroll actions\<close>

fun apply_marks_loop :: "real list \<Rightarrow> real \<Rightarrow> real \<Rightarrow> real" where
  "apply_marks_loop [] oldval newval = newval"
| "apply_marks_loop (mark # rest) oldval newval =
     (if (oldval < mark \<and> mark < newval) \<or> (oldval > mark \<and> mark > newval) then mark
      else apply_marks_loop rest oldval newval)"

definition apply_marks :: "GtkRange \<Rightarrow> real \<Rightarrow> real \<Rightarrow> real" where
  "apply_marks rng oldval newval = apply_marks_loop (marks rng) oldval newval"

definition step_back :: "Collaborators \<Rightarrow> GtkRange \<Rightarrow> GtkRange" where
  "step_back C rng =
     (let newval = dsub (gtk_adjustment_get_value (adjustment rng))
                        (gtk_adjustment_get_step_increment (adjustment rng));
          newval = apply_marks rng (gtk_adjustment_get_value (adjustment rng)) newval
      in snd (emit_change_value C rng GTK_SCROLL_STEP_BACKWARD newval))"

definition step_forward :: "Collaborators \<Rightarrow> GtkRange \<Rightarrow> GtkRange" where
  "step_forward C rng =
     (let newval = dadd (gtk_adjustment_get_value (adjustment rng))
                        (gtk_adjustment_get_step_increment (adjustment rng));
          newval = apply_marks rng (gtk_adjustment_get_value (adjustment rng)) newval
      in snd (emit_change_value C rng GTK_SCROLL_STEP_FORWARD newval))"

definition page_back :: "Collaborators \<Rightarrow> GtkRange \<Rightarrow> GtkRange" where
  "page_back C rng =
     (let newval = dsub (gtk_adjustment_get_value (adjustment rng))
                        (gtk_adjustment_get_page_increment (adjustment rng));
          newval = apply_marks rng (gtk_adjustment_get_value (adjustment rng)) newval
      in snd (emit_change_value C rng GTK_SCROLL_PAGE_BACKWARD newval))"

definition page_forward :: "Collaborators \<Rightarrow> GtkRange \<Rightarrow> GtkRange" where
  "page_forward C rng =
     (let newval = dadd (gtk_adjustment_get_value (adjustment rng))
                        (gtk_adjustment_get_page_increment (adjustment rng));
          newval = apply_marks rng (gtk_adjustment_get_value (adjustment rng)) newval
      in snd (emit_change_value C rng GTK_SCROLL_PAGE_FORWARD newval))"

definition scroll_begin :: "Collaborators \<Rightarrow> GtkRange \<Rightarrow> GtkRange" where
  "scroll_begin C rng =
     snd (emit_change_value C rng GTK_SCROLL_START (gtk_adjustment_get_lower (adjustment rng)))"

definition scroll_end :: "Collaborators \<Rightarrow> GtkRange \<Rightarrow> GtkRange" where
  "scroll_end C rng =
     (let newval = dsub (gtk_adjustment_get_upper (adjustment rng))
                        (gtk_adjustment_get_page_size (adjustment rng))
      in snd (emit_change_value C rng GTK_SCROLL_END newval))"

fun gtk_range_scroll_action :: "Collaborators \<Rightarrow> GtkRange \<Rightarrow> GtkScrollType \<Rightarrow> GtkRange" where
  "gtk_range_scroll_action C rng GTK_SCROLL_STEP_LEFT =
     (if should_invert rng then step_forward C rng else step_back C rng)"
| "gtk_range_scroll_action C rng GTK_SCROLL_STEP_UP =
     (if should_invert rng then step_forward C rng else step_back C rng)"
| "gtk_range_scroll_action C rng GTK_SCROLL_STEP_RIGHT =
     (if should_invert rng then step_back C rng else step_forward C rng)"
| "gtk_range_scroll_action C rng GTK_SCROLL_STEP_DOWN =
     (if should_invert rng then step_back C rng else step_forward C rng)"
| "gtk_range_scroll_action C rng GTK_SCROLL_STEP_BACKWARD = step_back C rng"
| "gtk_range_scroll_action C rng GTK_SCROLL_STEP_FORWARD = step_forward C rng"
| "gtk_range_scroll_action C rng GTK_SCROLL_PAGE_LEFT =
     (if should_invert rng then page_forward C rng else page_back C rng)"
| "gtk_range_scroll_action C rng GTK_SCROLL_PAGE_UP =
     (if should_invert rng then page_forward C rng else page_back C rng)"
| "gtk_range_scroll_action C rng GTK_SCROLL_PAGE_RIGHT =
     (if should_invert rng then page_back C rng else page_forward C rng)"
| "gtk_range_scroll_action C rng GTK_SCROLL_PAGE_DOWN =
     (if should_invert rng then page_back C rng else page_forward C rng)"
| "gtk_range_scroll_action C rng GTK_SCROLL_PAGE_BACKWARD = page_back C rng"
| "gtk_range_scroll_action C rng GTK_SCROLL_PAGE_FORWARD = page_forward C rng"
| "gtk_range_scroll_action C rng GTK_SCROLL_START = scroll_begin C rng"
| "gtk_range_scroll_action C rng GTK_SCROLL_END = scroll_end C rng"
| "gtk_range_scroll_action C rng GTK_SCROLL_JUMP = rng"
| "gtk_range_scroll_action C rng GTK_SCROLL_NONE = rng"

text \<open>\<^verbatim>\<open>gtk_range_scroll\<close>: the \<^verbatim>\<open>switch\<close> above, then the comparison with \<^verbatim>\<open>old_value\<close>.\<close>

definition gtk_range_scroll :: "Collaborators \<Rightarrow> GtkRange \<Rightarrow> GtkScrollType \<Rightarrow> bool \<times> GtkRange" where
  "gtk_range_scroll C rng scroll =
     (let old_value = gtk_adjustment_get_value (adjustment rng);
          rng' = gtk_range_scroll_action C rng scroll
      in (gtk_adjustment_get_value (adjustment rng') \<noteq> old_value, rng'))"

definition gtk_widget_error_bell :: "GtkRange \<Rightarrow> GtkRange" where
  "gtk_widget_error_bell rng = rng\<lparr>error_bells := Suc (error_bells rng)\<rparr>"

definition gtk_range_move_slider :: "Collaborators \<Rightarrow> GtkRange \<Rightarrow> GtkScrollType \<Rightarrow> GtkRange" where
  "gtk_range_move_slider C rng scroll =
     (case gtk_range_scroll C rng scroll of
        (changed, rng') \<Rightarrow> if \<not> changed then gtk_widget_error_bell rng' else rng')"

section \<open>Grab, timer and autoscroll state\<close>

definition update_zoom_state :: "GtkRange \<Rightarrow> bool \<Rightarrow> GtkRange" where
  "update_zoom_state rng enabled = rng\<lparr>zoom := enabled\<rparr>"

definition range_grab_remove :: "GtkRange \<Rightarrow> GtkRange" where
  "range_grab_remove rng =
     (if grab_location rng = None then rng
      else update_zoom_state (rng\<lparr>grab_location := None\<rparr>) False)"

definition gtk_range_remove_step_timer :: "GtkRange \<Rightarrow> GtkRange" where
  "gtk_range_remove_step_timer rng =
     (case timer rng of
        None \<Rightarrow> rng
      | Some t \<Rightarrow>
          rng\<lparr>timeout_sources := (if timeout_id t \<noteq> 0 then timeout_sources rng - {timeout_id t}
                                    else timeout_sources rng),
              timer := None\<rparr>)"

definition remove_autoscroll :: "GtkRange \<Rightarrow> GtkRange" where
  "remove_autoscroll rng =
     rng\<lparr>tick_callbacks := (if autoscroll_id rng \<noteq> 0 then tick_callbacks rng - {autoscroll_id rng}
                               else tick_callbacks rng),
         autoscroll_id := 0,
         slide_initial_slider_position := - 1,
         autoscroll_mode := GTK_SCROLL_NONE\<rparr>"

text \<open>\<^verbatim>\<open>gtk_widget_add_tick_callback\<close> hands out a fresh identifier, never \<open>0\<close>.\<close>

definition add_autoscroll :: "GtkRange \<Rightarrow> GtkRange" where
  "add_autoscroll rng =
     (if autoscroll_id rng \<noteq> 0 \<or> autoscroll_mode rng = GTK_SCROLL_NONE then rng
      else (let new_id = Suc (tick_callback_id rng)
            in rng\<lparr>tick_callback_id := new_id,
                    tick_callbacks := insert new_id (tick_callbacks rng),
                    autoscroll_id := new_id\<rparr>))"

definition stop_scrolling :: "GtkRange \<Rightarrow> GtkRange" where
  "stop_scrolling rng = remove_autoscroll (gtk_range_remove_step_timer (range_grab_remove rng))"

definition gtk_range_unmap :: "GtkRange \<Rightarrow> GtkRange" where
  "gtk_range_unmap rng = stop_scrolling rng"

definition gtk_range_multipress_gesture_released ::
  "GtkRange \<Rightarrow> nat \<Rightarrow> real \<Rightarrow> real \<Rightarrow> GtkRange option" where
  "gtk_range_multipress_gesture_released rng n_press x y =
     (case (double_to_gint x, double_to_gint y) of
        (Some mx, Some my) \<Rightarrow>
          Some (stop_scrolling (rng\<lparr>mouse_x := mx, mouse_y := my, in_drag := False\<rparr>))
      | _ \<Rightarrow> None)"

text \<open>
  A key event as \<^verbatim>\<open>gtk_range_key_press\<close> looks at it: the key value, if the event has
  one, and whether the drag gesture is active for the device of the event.
\<close>

datatype GdkKey = GDK_KEY_Escape | GDK_KEY_Shift_L | GDK_KEY_Shift_R | GDK_KEY_other

record GdkEventKey =
  gdk_event_get_keyval :: "GdkKey option"
  drag_gesture_active_for_device :: bool

datatype key_press_return = GDK_EVENT_STOP | GDK_EVENT_PROPAGATE | parent_class_key_press_event

definition gtk_range_key_press :: "GtkRange \<Rightarrow> GdkEventKey \<Rightarrow> key_press_return \<times> GtkRange" where
  "gtk_range_key_press rng event =
     (case gdk_event_get_keyval event of
        None \<Rightarrow> (GDK_EVENT_PROPAGATE, rng)
      | Some keyval \<Rightarrow>
          if drag_gesture_active_for_device event \<and> keyval = GDK_KEY_Escape \<and>
             grab_location rng \<noteq> None
          then (GDK_EVENT_STOP, stop_scrolling rng)
          else if in_drag rng \<and> (keyval = GDK_KEY_Shift_L \<or> keyval = GDK_KEY_Shift_R)
          then (GDK_EVENT_STOP,
                update_zoom_state
                  (rng\<lparr>slide_initial_slider_position :=
                          (if orientation rng = GTK_ORIENTATION_VERTICAL
                           then alloc_y (slider_alloc rng) else alloc_x (slider_alloc rng))\<rparr>)
                  (\<not> zoom rng))
          else (parent_class_key_press_event, rng))"

section \<open>Autoscroll\<close>



definition update_autoscroll_mode :: "GtkRange \<Rightarrow> GtkRange" where
  "update_autoscroll_mode rng =
     (let mode =
        (if zoom rng then
           (let (size, pos) =
                  (if orientation rng = GTK_ORIENTATION_VERTICAL
                   then (gtk_widget_get_height rng, mouse_y rng)
                   else (gtk_widget_get_width rng, mouse_x rng))
            in if pos < 15
               then (if inverted rng then GTK_SCROLL_STEP_FORWARD else GTK_SCROLL_STEP_BACKWARD)
               else if pos > size - 15
               then (if inverted rng then GTK_SCROLL_STEP_BACKWARD else GTK_SCROLL_STEP_FORWARD)
               else GTK_SCROLL_NONE)
         else GTK_SCROLL_NONE)
      in if mode \<noteq> autoscroll_mode rng
         then add_autoscroll ((remove_autoscroll rng)\<lparr>autoscroll_mode := mode\<rparr>)
         else rng)"

section \<open>Dragging the slider\<close>

text \<open>
  The local \<^verbatim>\<open>zoom\<close> of \<^verbatim>\<open>update_slider_position\<close>. When the adjustment's span
  \<^verbatim>\<open>upper - lower - page_size\<close> is zero the source divides by zero: for a positive trough
  length the quotient is \<open>+\<infinity>\<close>, \<^verbatim>\<open>MIN (1.0, +\<infinity>)\<close> is \<open>1.0\<close> and the factor becomes
  \<open>0.25\<close>; otherwise the quotient is NaN or \<open>-\<infinity>\<close>, which the model does not follow (\<open>None\<close>).
\<close>

definition zoom_factor :: "GtkRange \<Rightarrow> real option" where
  "zoom_factor rng =
     (if zoom rng then
        (let span = dsub (dsub (gtk_adjustment_get_upper (adjustment rng))
                               (gtk_adjustment_get_lower (adjustment rng)))
                         (gtk_adjustment_get_page_size (adjustment rng))
         in if span = 0 then (if 0 < trough_length rng then Some (1 / 4) else None)
            else (let z = MIN_macro 1 (ddiv (of_int (trough_length rng)) span)
                  in Some (if z = 1 then 1 / 4 else z)))
      else Some 1)"

text \<open>
  The recalculation of \<^verbatim>\<open>slide_initial_slider_position\<close> when it is \<open>-1\<close>. With a
  factor of \<open>1.0\<close> the source divides by \<^verbatim>\<open>zoom - 1.0 = 0\<close> and converts the result to
  \<^verbatim>\<open>gint\<close>, which is undefined: \<open>None\<close>.
\<close>

definition recalculated_initial_position :: "GtkRange \<Rightarrow> real \<Rightarrow> int \<Rightarrow> int \<Rightarrow> int option" where
  "recalculated_initial_position rng zoomf mx my =
     (if slide_initial_slider_position rng = - 1 then
        (if zoomf = 1 then None
         else if orientation rng = GTK_ORIENTATION_VERTICAL
         then double_to_gint
                (ddiv (dsub (dmul zoomf (of_int (my - slide_initial_coordinate_delta rng)))
                            (of_int (alloc_y (slider_alloc rng))))
                      (dsub zoomf 1))
         else double_to_gint
                (ddiv (dsub (dmul zoomf (of_int (mx - slide_initial_coordinate_delta rng)))
                            (of_int (alloc_x (slider_alloc rng))))
                      (dsub zoomf 1)))
      else Some (slide_initial_slider_position rng))"

text \<open>The loop over the marks of \<^verbatim>\<open>update_slider_position\<close>, with its \<^verbatim>\<open>break\<close>.\<close>

fun snap_marks_loop :: "real list \<Rightarrow> real \<Rightarrow> real \<Rightarrow> real \<Rightarrow> real" where
  "snap_marks_loop [] cur mark_delta new_value = new_value"
| "snap_marks_loop (mark_value # rest) cur mark_delta new_value =
     (if \<bar>dsub cur mark_value\<bar> < dmul 3 mark_delta
      then (if \<bar>dsub new_value mark_value\<bar> < dmul 12 mark_delta then mark_value
            else snap_marks_loop rest cur mark_delta new_value)
      else snap_marks_loop rest cur mark_delta new_value)"

text \<open>The second half of \<^verbatim>\<open>update_slider_position\<close>, from the coordinate \<open>c\<close> on.\<close>

definition slide_to_coordinate :: "Collaborators \<Rightarrow> GtkRange \<Rightarrow> real \<Rightarrow> GtkRange" where
  "slide_to_coordinate C rng c =
     (let new_value = coord_to_value rng c;
          next_value = coord_to_value rng (dadd c 1);
          mark_delta = \<bar>dsub next_value new_value\<bar>;
          new_value = snap_marks_loop (marks rng) (gtk_adjustment_get_value (adjustment rng))
                        mark_delta new_value
      in snd (emit_change_value C rng GTK_SCROLL_JUMP new_value))"

text \<open>
  The first half of \<^verbatim>\<open>update_slider_position\<close>: the new
  \<^verbatim>\<open>slide_initial_slider_position\<close> and the synthetic slider coordinate \<open>c\<close>.
\<close>

definition slider_coordinate :: "GtkRange \<Rightarrow> int \<Rightarrow> int \<Rightarrow> (int \<times> real) option" where
  "slider_coordinate rng mx my =
     (case zoom_factor rng of
        None \<Rightarrow> None
      | Some zoomf \<Rightarrow>
          (case recalculated_initial_position rng zoomf mx my of
             None \<Rightarrow> None
           | Some pos \<Rightarrow>
               (let delta = (if orientation rng = GTK_ORIENTATION_VERTICAL
                             then of_int (my - (slide_initial_coordinate_delta rng + pos))
                             else of_int (mx - (slide_initial_coordinate_delta rng + pos)))
                in Some (pos, dadd (of_int pos) (dmul zoomf delta)))))"

definition update_slider_position :: "Collaborators \<Rightarrow> GtkRange \<Rightarrow> int \<Rightarrow> int \<Rightarrow> GtkRange option" where
  "update_slider_position C rng mx my =
     (case slider_coordinate rng mx my of
        None \<Rightarrow> None
      | Some (pos, c) \<Rightarrow>
          Some (slide_to_coordinate C (rng\<lparr>slide_initial_slider_position := pos\<rparr>) c))"

definition gtk_range_drag_gesture_update ::
  "Collaborators \<Rightarrow> GtkRange \<Rightarrow> real \<times> real \<Rightarrow> real \<Rightarrow> real \<Rightarrow> GtkRange option" where
  "gtk_range_drag_gesture_update C rng start_point offset_x offset_y =
     (if grab_location rng = Some slider_widget then
        (case (double_to_gint (dadd (fst start_point) offset_x),
               double_to_gint (dadd (snd start_point) offset_y)) of
           (Some mx, Some my) \<Rightarrow>
             (let rng' = update_autoscroll_mode (rng\<lparr>mouse_x := mx, mouse_y := my, in_drag := True\<rparr>)
              in if autoscroll_mode rng' = GTK_SCROLL_NONE
                 then update_slider_position C rng' (mouse_x rng') (mouse_y rng')
                 else Some rng')
         | _ \<Rightarrow> None)
      else Some rng)"

section \<open>Notions the theorems are stated with\<close>




text \<open>
  The drag policy: a mark attracts when the current value is within three pixels' worth
  of it and the candidate within \<^verbatim>\<open>MARK_SNAP_LENGTH\<close> = 12 pixels' worth.
\<close>

definition attracts :: "real \<Rightarrow> real \<Rightarrow> real \<Rightarrow> real \<Rightarrow> bool" where
  "attracts cur mark_delta candidate m =
     (\<bar>dsub cur m\<bar> < dmul 3 mark_delta \<and> \<bar>dsub candidate m\<bar> < dmul 12 mark_delta)"



text \<open>
  What \<^verbatim>\<open>stop_scrolling\<close> establishes: no grab, no timer (its timeout source
  removed), no autoscroll callback (removed from the widget) with the mode none, and the
  zoom mode off if a grab was active.
\<close>

definition scrolling_stopped :: "GtkRange \<Rightarrow> GtkRange \<Rightarrow> bool" where
  "scrolling_stopped before after =
     (grab_location after = None \<and> timer after = None \<and>
      (case timer before of
         None \<Rightarrow> True
       | Some t \<Rightarrow> timeout_id t = 0 \<or> timeout_id t \<notin> timeout_sources after) \<and>
      autoscroll_id after = 0 \<and>
      (autoscroll_id before = 0 \<or> autoscroll_id before \<notin> tick_callbacks after) \<and>
      autoscroll_mode after = GTK_SCROLL_NONE \<and>
      (grab_location before = None \<or> \<not> zoom after))"

section \<open>A freshly initialised range\<close>

text \<open>
  The state \<^verbatim>\<open>gtk_range_init\<close> leaves, with the all-zero adjustment that
  \<^verbatim>\<open>gtk_range_set_adjustment\<close> creates for \<^verbatim>\<open>NULL\<close>, in a left-to-right widget that
  has no size yet. \<^verbatim>\<open>G_MININT\<close> is \<open>- 2 ^ 31\<close> and \<^verbatim>\<open>G_MAXDOUBLE\<close> is
  \<open>(2 ^ 53 - 1) * 2 ^ 971\<close>. The concrete inputs below are updates of this state.
\<close>

definition gtk_range_init :: GtkRange where
  "gtk_range_init =
     \<lparr>mouse_x = - (2 ^ 31), mouse_y = - (2 ^ 31),
      grab_location = None, timer = None,
      adjustment = \<lparr>gtk_adjustment_get_value = 0, gtk_adjustment_get_lower = 0,
                    gtk_adjustment_get_upper = 0, gtk_adjustment_get_step_increment = 0,
                    gtk_adjustment_get_page_increment = 0, gtk_adjustment_get_page_size = 0\<rparr>,
      orientation = GTK_ORIENTATION_HORIZONTAL,
      fill_level = (2 ^ 53 - 1) * 2 ^ 971,
      marks = [], round_digits = - 1,
      slide_initial_slider_position = 0, slide_initial_coordinate_delta = 0,
      flippable = False, inverted = False, zoom = False,
      restrict_to_fill_level = True, in_drag = False,
      autoscroll_mode = GTK_SCROLL_NONE, autoscroll_id = 0,
      gtk_widget_get_direction = GTK_TEXT_DIR_LTR,
      slider_alloc = \<lparr>alloc_x = 0, alloc_y = 0, alloc_width = 0, alloc_height = 0\<rparr>,
      trough_alloc = \<lparr>alloc_x = 0, alloc_y = 0, alloc_width = 0, alloc_height = 0\<rparr>,
      gtk_widget_get_width = 0, gtk_widget_get_height = 0,
      gtk_gesture_drag_get_offset = None,
      tick_callbacks = {}, tick_callback_id = 0, timeout_sources = {},
      change_value_emitted = [], adjustment_calls = [], error_bells = 0\<rparr>"

text \<open>
  Modelled from the spec: \<^verbatim>\<open>gtkadjustment.c\<close> is not among the sources. The
  specification's adjustment keeps \<open>lower \<le> value \<le> upper - page_size\<close> by clamping. This
  instance of the collaborators has no animation, so both setters clamp and store, and it
  has no handler of \<^verbatim>\<open>adjust-bounds\<close>. The theorems hold for all collaborators; this
  instance serves the concrete inputs.
\<close>

definition plain_set_value :: "real \<Rightarrow> GtkAdjustment \<Rightarrow> GtkAdjustment" where
  "plain_set_value v adj =
     adj\<lparr>gtk_adjustment_get_value :=
           max (gtk_adjustment_get_lower adj)
             (min v (dsub (gtk_adjustment_get_upper adj) (gtk_adjustment_get_page_size adj)))\<rparr>"

definition plain_collaborators :: Collaborators where
  "plain_collaborators =
     \<lparr>adjust_bounds = (\<lambda>v adj. adj),
      gtk_adjustment_set_value = plain_set_value,
      gtk_adjustment_animate_to_value = plain_set_value\<rparr>"

section \<open>Properties of the rounding\<close>

lemma two_powi_less_cancel: assumes "(2::real) powi a < 2 powi b" shows "a < b"
proof (rule ccontr)
  assume "\<not> a < b"
  then have "b \<le> a" by simp
  then have "(2::real) powi b \<le> 2 powi a" by (intro power_int_increasing) simp_all
  with assms show False by simp
qed

lemma two_powi_nat: assumes "0 \<le> k" shows "(2::real) powi k = 2 ^ nat k"
  using assms by (simp add: power_int_def)

lemma expo_lower: assumes "0 < x" shows "2 powi expo x \<le> x"
proof (cases "1 \<le> x")
  case True
  define n where "n = \<lfloor>x\<rfloor>"
  have n: "0 < n" using True by (simp add: n_def)
  have k: "1 \<le> bitlen n" using n bitlen_eq_zero_iff[of n] bitlen_nonneg[of n] by linarith
  have "(2::int) ^ nat (bitlen n - 1) \<le> n" using bitlen_bounds[OF n] by simp
  then have "(2::real) ^ nat (bitlen n - 1) \<le> of_int n"
    by (metis of_int_le_iff of_int_numeral of_int_power)
  also have "\<dots> \<le> x" by (simp add: n_def)
  finally show ?thesis using True k by (simp add: expo_def n_def power_int_def)
next
  case False
  define m where "m = \<lceil>1 / x\<rceil> - 1"
  have y: "1 < 1 / x" using False assms by simp
  have m: "0 < m" using y by (simp add: m_def less_ceiling_iff)
  have k: "1 \<le> bitlen m" using m bitlen_eq_zero_iff[of m] bitlen_nonneg[of m] by linarith
  have "m < 2 ^ nat (bitlen m)" using bitlen_bounds[OF m] by simp
  then have "m + 1 \<le> 2 ^ nat (bitlen m)" by simp
  then have "of_int (m + 1) \<le> (2::real) ^ nat (bitlen m)"
    by (metis of_int_le_iff of_int_numeral of_int_power)
  moreover have "1 / x \<le> of_int (m + 1)" by (simp add: m_def le_of_int_ceiling)
  ultimately have "1 / x \<le> 2 ^ nat (bitlen m)" by linarith
  then have "1 \<le> x * 2 ^ nat (bitlen m)" using assms
    by (simp add: pos_divide_le_eq mult.commute)
  then have "inverse (2 ^ nat (bitlen m)) \<le> x"
    by (simp add: pos_divide_le_eq inverse_eq_divide)
  moreover have "expo x = - bitlen m" using False by (simp add: expo_def m_def)
  moreover have "(2::real) powi bitlen m = 2 ^ nat (bitlen m)"
    using k by (intro two_powi_nat) simp
  ultimately show ?thesis by (simp add: power_int_minus)
qed

lemma expo_upper: assumes "0 < x" shows "x < 2 powi (expo x + 1)"
proof (cases "1 \<le> x")
  case True
  define n where "n = \<lfloor>x\<rfloor>"
  have n: "0 < n" using True by (simp add: n_def)
  have k: "1 \<le> bitlen n" using n bitlen_eq_zero_iff[of n] bitlen_nonneg[of n] by linarith
  have "n < 2 ^ nat (bitlen n)" using bitlen_bounds[OF n] by simp
  then have "n + 1 \<le> 2 ^ nat (bitlen n)" by simp
  then have "of_int (n + 1) \<le> (2::real) ^ nat (bitlen n)"
    by (metis of_int_le_iff of_int_numeral of_int_power)
  moreover have "x < of_int (n + 1)" by (simp add: n_def)
  ultimately have "x < 2 ^ nat (bitlen n)" by linarith
  then show ?thesis using True k by (simp add: expo_def n_def power_int_def)
next
  case False
  define m where "m = \<lceil>1 / x\<rceil> - 1"
  have y: "1 < 1 / x" using False assms by simp
  have m: "0 < m" using y by (simp add: m_def less_ceiling_iff)
  have k: "1 \<le> bitlen m" using m bitlen_eq_zero_iff[of m] bitlen_nonneg[of m] by linarith
  have "(2::int) ^ nat (bitlen m - 1) \<le> m" using bitlen_bounds[OF m] by simp
  then have "(2::real) ^ nat (bitlen m - 1) \<le> of_int m"
    by (metis of_int_le_iff of_int_numeral of_int_power)
  moreover have "of_int m < 1 / x" unfolding m_def by linarith
  ultimately have "2 ^ nat (bitlen m - 1) < 1 / x" by linarith
  then have "x * 2 ^ nat (bitlen m - 1) < 1" using assms
    by (simp add: pos_less_divide_eq mult.commute)
  then have "x < inverse (2 ^ nat (bitlen m - 1))"
    by (simp add: pos_less_divide_eq inverse_eq_divide)
  moreover have "expo x + 1 = - (bitlen m - 1)" using False by (simp add: expo_def m_def)
  then have "(2::real) powi (expo x + 1) = inverse (2 powi (bitlen m - 1))"
    by (simp only: power_int_minus)
  moreover have "(2::real) powi (bitlen m - 1) = 2 ^ nat (bitlen m - 1)"
    using k by (intro two_powi_nat) simp
  ultimately show ?thesis by (simp only:)
qed

lemma expo_unique:
  assumes "0 < x" "2 powi e \<le> x" "x < 2 powi (e + 1)"
  shows "expo x = e"
proof -
  have "(2::real) powi expo x < 2 powi (e + 1)"
    using expo_lower[OF assms(1)] assms(3) by linarith
  then have a: "expo x < e + 1" by (rule two_powi_less_cancel)
  have "(2::real) powi e < 2 powi (expo x + 1)"
    using expo_upper[OF assms(1)] assms(2) by linarith
  then have "e < expo x + 1" by (rule two_powi_less_cancel)
  with a show ?thesis by simp
qed

lemma expo_mono: assumes "0 < x" "x \<le> y" shows "expo x \<le> expo y"
proof -
  have "(2::real) powi expo x < 2 powi (expo y + 1)"
    using expo_lower[OF assms(1)] expo_upper[of y] assms by linarith
  then have "expo x < expo y + 1" by (rule two_powi_less_cancel)
  then show ?thesis by simp
qed

lemma round_even_of_int: "round_even (of_int n) = n"
  by (simp add: round_even_def)

lemma round_even_mono: assumes "q \<le> r" shows "round_even q \<le> round_even r"
proof (cases "\<lfloor>q\<rfloor> = \<lfloor>r\<rfloor>")
  case True
  then show ?thesis using assms by (auto simp: round_even_def Let_def)
next
  case False
  then have "\<lfloor>q\<rfloor> < \<lfloor>r\<rfloor>" using assms floor_mono[OF assms] by linarith
  moreover have "round_even q \<le> \<lfloor>q\<rfloor> + 1" by (simp add: round_even_def Let_def)
  moreover have "\<lfloor>r\<rfloor> \<le> round_even r" by (simp add: round_even_def Let_def)
  ultimately show ?thesis by linarith
qed

lemma b64_zero: "b64 0 = 0"
  by (simp add: b64_def)

lemma b64_minus: "b64 (- x) = - b64 x"
  by (simp add: b64_def Let_def sgn_minus)

lemma b64_pos_eq:
  assumes "0 < x"
  shows "b64 x = of_int (round_even (x / 2 powi (expo x - 52))) * 2 powi (expo x - 52)"
  using assms by (simp add: b64_def Let_def)

lemma scaled_bounds:
  assumes "0 < x"
  shows "2 ^ 52 \<le> x / 2 powi (expo x - 52)" and "x / 2 powi (expo x - 52) \<le> 2 ^ 53"
proof -
  have p: "(0::real) < 2 powi (expo x - 52)" by simp
  have "2 ^ 52 * 2 powi (expo x - 52) = (2::real) powi expo x"
    by (simp add: power_int_diff)
  then show "2 ^ 52 \<le> x / 2 powi (expo x - 52)"
    using expo_lower[OF assms] p by (simp add: pos_le_divide_eq)
  have "2 ^ 53 * 2 powi (expo x - 52) = (2::real) powi (expo x + 1)"
    by (simp add: power_int_diff power_int_add)
  then show "x / 2 powi (expo x - 52) \<le> 2 ^ 53"
    using expo_upper[OF assms] p by (simp add: pos_divide_le_eq)
qed

lemma b64_pos_bounds:
  assumes "0 < x"
  shows "2 powi expo x \<le> b64 x" and "b64 x \<le> 2 powi (expo x + 1)"
proof -
  define s :: real where "s = 2 powi (expo x - 52)"
  define m where "m = round_even (x / s)"
  have p: "0 < s" by (simp add: s_def)
  have b: "b64 x = of_int m * s" using b64_pos_eq[OF assms] by (simp add: m_def s_def)
  have "round_even (of_int (2 ^ 52)) \<le> m"
    unfolding m_def s_def using scaled_bounds(1)[OF assms] by (intro round_even_mono) simp
  then have "(2::int) ^ 52 \<le> m" by (simp only: round_even_of_int)
  then have lo: "(2::real) ^ 52 \<le> of_int m"
    by (metis of_int_le_iff of_int_numeral of_int_power)
  have "(2::real) powi expo x = 2 ^ 52 * s" by (simp add: s_def power_int_diff)
  also have "\<dots> \<le> of_int m * s" using lo p by (intro mult_right_mono) simp_all
  finally show "2 powi expo x \<le> b64 x" by (simp only: b)
  have "m \<le> round_even (of_int (2 ^ 53))"
    unfolding m_def s_def using scaled_bounds(2)[OF assms] by (intro round_even_mono) simp
  then have "m \<le> (2::int) ^ 53" by (simp only: round_even_of_int)
  then have hi: "of_int m \<le> (2::real) ^ 53"
    by (metis of_int_le_iff of_int_numeral of_int_power)
  have "of_int m * s \<le> 2 ^ 53 * s" using hi p by (intro mult_right_mono) simp_all
  also have "\<dots> = (2::real) powi (expo x + 1)"
    by (simp add: s_def power_int_diff power_int_add)
  finally show "b64 x \<le> 2 powi (expo x + 1)" by (simp only: b)
qed

lemma b64_pos: assumes "0 < x" shows "0 < b64 x"
proof -
  have "(0::real) < 2 powi expo x" by simp
  then show ?thesis using b64_pos_bounds(1)[OF assms] by linarith
qed

lemma b64_mono_pos: assumes "0 < x" "x \<le> y" shows "b64 x \<le> b64 y"
proof (cases "expo x = expo y")
  case True
  have y: "0 < y" using assms by linarith
  let ?s = "(2::real) powi (expo y - 52)"
  have p: "0 < ?s" by simp
  have "x / ?s \<le> y / ?s" using assms p by (simp add: divide_right_mono)
  then have "round_even (x / ?s) \<le> round_even (y / ?s)" by (rule round_even_mono)
  then have "of_int (round_even (x / ?s)) * ?s \<le> of_int (round_even (y / ?s)) * ?s"
    using p by simp
  then show ?thesis using b64_pos_eq[OF assms(1)] b64_pos_eq[OF y] True by simp
next
  case False
  have y: "0 < y" using assms by linarith
  have "expo x + 1 \<le> expo y" using False expo_mono[OF assms] by linarith
  then have "(2::real) powi (expo x + 1) \<le> 2 powi expo y"
    by (intro power_int_increasing) simp_all
  then show ?thesis
    using b64_pos_bounds(2)[OF assms(1)] b64_pos_bounds(1)[OF y] by linarith
qed

lemma b64_mono: assumes "x \<le> y" shows "b64 x \<le> b64 y"
proof -
  consider "0 < x" | "x \<le> 0" "0 \<le> y" | "y < 0" by linarith
  then show ?thesis
  proof cases
    case 1
    then show ?thesis using assms by (rule b64_mono_pos)
  next
    case 2
    have "b64 x \<le> 0"
    proof (cases "x = 0")
      case True then show ?thesis by (simp add: b64_zero)
    next
      case False
      then have "0 < - x" using 2 by simp
      then have "0 < b64 (- x)" by (rule b64_pos)
      then show ?thesis by (simp add: b64_minus)
    qed
    moreover have "0 \<le> b64 y"
    proof (cases "y = 0")
      case True then show ?thesis by (simp add: b64_zero)
    next
      case False
      then have "0 < y" using 2 by simp
      then show ?thesis using b64_pos[of y] by simp
    qed
    ultimately show ?thesis by linarith
  next
    case 3
    have "0 < - y" "- y \<le> - x" using 3 assms by simp_all
    then have "b64 (- y) \<le> b64 (- x)" by (rule b64_mono_pos)
    then show ?thesis by (simp add: b64_minus)
  qed
qed


lemma b64_exact_pos:
  assumes "0 < m" "m < 2 ^ 53"
  shows "b64 (of_int m * 2 powi e) = of_int m * 2 powi e"
proof -
  define k where "k = bitlen m"
  define x :: real where "x = of_int m * 2 powi e"
  have bb: "2 ^ nat (k - 1) \<le> m" "m < 2 ^ nat k"
    using bitlen_bounds[OF assms(1)] by (simp_all add: k_def)
  have k1: "1 \<le> k"
    unfolding k_def using assms(1) bitlen_eq_zero_iff[of m] bitlen_nonneg[of m] by linarith
  have "(2::int) ^ nat (k - 1) < 2 ^ 53" using bb(1) assms(2) by linarith
  then have "nat (k - 1) < 53" by (simp only: power_strict_increasing_iff)
  then have k53: "k \<le> 53" by linarith
  have x0: "0 < x" using assms(1) by (simp add: x_def)
  have rlo: "(2::real) ^ nat (k - 1) \<le> of_int m"
    using bb(1) by (metis of_int_le_iff of_int_numeral of_int_power)
  have rhi: "of_int m < (2::real) ^ nat k"
    using bb(2) by (metis of_int_less_iff of_int_numeral of_int_power)
  have "(2::real) powi (k - 1 + e) = 2 powi (k - 1) * 2 powi e" by (simp add: power_int_add)
  also have "\<dots> = 2 ^ nat (k - 1) * 2 powi e" using k1 by (simp add: two_powi_nat)
  also have "\<dots> \<le> x" unfolding x_def using rlo by (intro mult_right_mono) simp_all
  finally have lo: "2 powi (k - 1 + e) \<le> x" .
  have "x < 2 ^ nat k * 2 powi e" unfolding x_def using rhi by (intro mult_strict_right_mono) simp_all
  also have "\<dots> = 2 powi k * 2 powi e" using k1 by (simp add: two_powi_nat)
  also have "\<dots> = 2 powi (k - 1 + e + 1)" by (simp add: power_int_add)
  finally have hi: "x < 2 powi (k - 1 + e + 1)" .
  have ex: "expo x = k - 1 + e" by (rule expo_unique[OF x0 lo hi])
  have e1: "expo x - 52 = k + e - 53" using ex by simp
  have "x / 2 powi (k + e - 53) = of_int m * (2 powi e / 2 powi (k + e - 53))"
    by (simp add: x_def)
  also have "2 powi e / 2 powi (k + e - 53) = (2::real) powi (e - (k + e - 53))"
    by (rule power_int_diff[symmetric]) simp
  also have "e - (k + e - 53) = 53 - k" by simp
  also have "(2::real) powi (53 - k) = 2 ^ nat (53 - k)" using k53 by (simp add: two_powi_nat)
  also have "of_int m * (2::real) ^ nat (53 - k) = of_int (m * 2 ^ nat (53 - k))" by simp
  finally have sc: "x / 2 powi (k + e - 53) = of_int (m * 2 ^ nat (53 - k))" .
  have "b64 x = of_int (m * 2 ^ nat (53 - k)) * 2 powi (k + e - 53)"
    by (simp only: b64_pos_eq[OF x0] e1 sc round_even_of_int)
  also have "\<dots> = of_int m * (2 ^ nat (53 - k) * 2 powi (k + e - 53))" by simp
  also have "(2::real) ^ nat (53 - k) = 2 powi (53 - k)" using k53 by (simp add: two_powi_nat)
  also have "(2::real) powi (53 - k) * 2 powi (k + e - 53) = 2 powi (53 - k + (k + e - 53))"
    by (rule power_int_add[symmetric]) simp
  also have "53 - k + (k + e - 53) = e" by simp
  finally show ?thesis by (simp add: x_def)
qed

lemma b64_exact:
  assumes "\<bar>m\<bar> < 2 ^ 53"
  shows "b64 (of_int m * 2 powi e) = of_int m * 2 powi e"
proof -
  consider "0 < m" | "m = 0" | "m < 0" by linarith
  then show ?thesis
  proof cases
    case 1
    then show ?thesis using assms by (intro b64_exact_pos) simp_all
  next
    case 2
    then show ?thesis by (simp add: b64_zero)
  next
    case 3
    then have "b64 (of_int (- m) * 2 powi e) = of_int (- m) * 2 powi e"
      using assms by (intro b64_exact_pos) simp_all
    then show ?thesis using b64_minus[of "of_int m * 2 powi e"] by simp
  qed
qed

lemma b64_of_int: assumes "\<bar>m\<bar> < 2 ^ 53" shows "b64 (of_int m) = of_int m"
  using b64_exact[OF assms, of 0] by simp

lemma b64_idem_pos: assumes "0 < x" shows "b64 (b64 x) = b64 x"
proof -
  define E where "E = expo x - 52"
  define M where "M = round_even (x / 2 powi E)"
  have b: "b64 x = of_int M * 2 powi E"
    using b64_pos_eq[OF assms] by (simp add: M_def E_def)
  have "round_even (of_int (2 ^ 52)) \<le> M"
    unfolding M_def E_def using scaled_bounds(1)[OF assms] by (intro round_even_mono) simp
  then have lo: "2 ^ 52 \<le> M" by (simp only: round_even_of_int)
  have "M \<le> round_even (of_int (2 ^ 53))"
    unfolding M_def E_def using scaled_bounds(2)[OF assms] by (intro round_even_mono) simp
  then have hi: "M \<le> 2 ^ 53" by (simp only: round_even_of_int)
  show ?thesis
  proof (cases "M < 2 ^ 53")
    case True
    then have "\<bar>M\<bar> < 2 ^ 53" using lo by simp
    then show ?thesis unfolding b by (rule b64_exact)
  next
    case False
    then have M: "M = 2 ^ 53" using hi by simp
    have "of_int M * 2 powi E = of_int (2 ^ 52) * ((2::real) powi 1 * 2 powi E)"
      by (simp add: M)
    also have "(2::real) powi 1 * 2 powi E = 2 powi (1 + E)"
      by (rule power_int_add[symmetric]) simp
    finally have eq: "of_int M * 2 powi E = of_int (2 ^ 52) * (2::real) powi (1 + E)" .
    have "\<bar>(2::int) ^ 52\<bar> < 2 ^ 53" by simp
    then have "b64 (of_int (2 ^ 52) * 2 powi (1 + E)) = of_int (2 ^ 52) * 2 powi (1 + E)"
      by (rule b64_exact)
    then show ?thesis unfolding b eq .
  qed
qed

lemma b64_idem: "b64 (b64 x) = b64 x"
proof -
  consider "0 < x" | "x = 0" | "x < 0" by linarith
  then show ?thesis
  proof cases
    case 1
    then show ?thesis by (rule b64_idem_pos)
  next
    case 2
    then show ?thesis by (simp add: b64_zero)
  next
    case 3
    then have "b64 (b64 (- x)) = b64 (- x)" by (intro b64_idem_pos) simp
    then show ?thesis by (simp add: b64_minus)
  qed
qed

lemma b64_pow10: assumes "j \<le> 22" shows "b64 (10 ^ j) = 10 ^ j"
proof -
  have "(5::int) ^ j \<le> 5 ^ 22" using assms by (intro power_increasing) simp_all
  also have "\<dots> < 2 ^ 53" by simp
  finally have "\<bar>(5::int) ^ j\<bar> < 2 ^ 53" by simp
  then have "b64 (of_int (5 ^ j) * 2 powi (int j)) = of_int (5 ^ j) * 2 powi (int j)"
    by (rule b64_exact)
  moreover have "of_int (5 ^ j) * 2 powi (int j) = (10::real) ^ j"
  proof -
    have "(10::real) ^ j = (5 * 2) ^ j" by simp
    also have "\<dots> = 5 ^ j * 2 ^ j" by (simp only: power_mult_distrib)
    finally show ?thesis by (simp add: power_int_def)
  qed
  ultimately show ?thesis by simp
qed

lemma double_pow10_exact: assumes "n \<le> 22" shows "double_pow10 n = 10 ^ n"
  using assms
proof (induction n)
  case 0
  then show ?case by simp
next
  case (Suc n)
  then have "double_pow10 n = 10 ^ n" by simp
  then have "double_pow10 (Suc n) = b64 (10 ^ Suc n)" by (simp add: dmul_def mult.commute)
  then show ?case using b64_pow10[of "Suc n"] Suc.prems by simp
qed

lemma power_loop_double_pow10: "power_loop n (double_pow10 k) = double_pow10 (k + n)"
proof (induction n arbitrary: k)
  case 0
  show ?case by simp
next
  case (Suc n)
  have "power_loop (Suc n) (double_pow10 k) = power_loop n (double_pow10 (Suc k))" by simp
  also have "\<dots> = double_pow10 (Suc k + n)" by (rule Suc.IH)
  finally show ?case by simp
qed

text \<open>
  The powers of ten of the rounding loop increase, stay within a relative error of
  \<open>2 ^ - 53\<close> for each factor, and leave the range of the doubles exactly from the 309th
  on.
\<close>

lemma round_even_error: "\<bar>of_int (round_even q) - q\<bar> \<le> 1 / 2"
proof -
  define d where "d = q - of_int \<lfloor>q\<rfloor>"
  have d: "0 \<le> d" "d < 1" unfolding d_def by linarith+
  have q: "q = of_int \<lfloor>q\<rfloor> + d" by (simp add: d_def)
  have "round_even q = (if d < 1 / 2 then \<lfloor>q\<rfloor> else if 1 / 2 < d then \<lfloor>q\<rfloor> + 1
                        else if even \<lfloor>q\<rfloor> then \<lfloor>q\<rfloor> else \<lfloor>q\<rfloor> + 1)"
    by (simp add: round_even_def Let_def d_def)
  then have "of_int (round_even q) - q = (if d < 1 / 2 then - d else if 1 / 2 < d then 1 - d
                        else if even \<lfloor>q\<rfloor> then - d else 1 - d)"
    using q by simp
  then show ?thesis using d by (simp split: if_splits)
qed

lemma b64_error_pos:
  assumes "0 < x"
  shows "\<bar>b64 x - x\<bar> \<le> x / 2 ^ 53"
proof -
  define s :: real where "s = 2 powi (expo x - 52)"
  define m where "m = round_even (x / s)"
  have p: "0 < s" by (simp add: s_def)
  have b: "b64 x = of_int m * s" using b64_pos_eq[OF assms] by (simp add: m_def s_def)
  have "b64 x - x = (of_int m - x / s) * s" using p by (simp add: b field_simps)
  then have "\<bar>b64 x - x\<bar> = \<bar>of_int m - x / s\<bar> * s" using p by (simp add: abs_mult)
  also have "\<dots> \<le> 1 / 2 * s"
    using round_even_error[of "x / s"] p unfolding m_def by (intro mult_right_mono) simp_all
  also have "\<dots> = 2 powi expo x / 2 ^ 53"
  proof -
    have "(2::real) powi expo x = 2 ^ 52 * s" by (simp add: s_def power_int_diff)
    then show ?thesis by simp
  qed
  also have "\<dots> \<le> x / 2 ^ 53" using expo_lower[OF assms] by (simp add: divide_right_mono)
  finally show ?thesis .
qed

lemma double_pow10_ge_one: "1 \<le> double_pow10 n \<and> b64 (double_pow10 n) = double_pow10 n"
proof (induction n)
  case 0
  show ?case using b64_of_int[of 1] by simp
next
  case (Suc n)
  then have "double_pow10 n \<le> double_pow10 n * 10" by simp
  then have "b64 (double_pow10 n) \<le> b64 (double_pow10 n * 10)" by (rule b64_mono)
  then show ?case using Suc by (simp add: dmul_def b64_idem)
qed

lemma double_pow10_mono: assumes "m \<le> n" shows "double_pow10 m \<le> double_pow10 n"
  using assms
proof (induction n)
  case 0
  then show ?case by simp
next
  case (Suc n)
  have "double_pow10 n \<le> double_pow10 n * 10" using double_pow10_ge_one[of n] by simp
  then have "b64 (double_pow10 n) \<le> b64 (double_pow10 n * 10)" by (rule b64_mono)
  then have s: "double_pow10 n \<le> double_pow10 (Suc n)"
    using double_pow10_ge_one[of n] by (simp add: dmul_def)
  show ?case
  proof (cases "m = Suc n")
    case True
    then show ?thesis by simp
  next
    case False
    then have "double_pow10 m \<le> double_pow10 n" using Suc by simp
    then show ?thesis using s by linarith
  qed
qed

lemma double_pow10_bounds:
  "10 ^ n * (1 - 1 / 2 ^ 53) ^ n \<le> double_pow10 n \<and>
   double_pow10 n \<le> 10 ^ n * (1 + 1 / 2 ^ 53) ^ n"
proof (induction n)
  case 0
  show ?case by simp
next
  case (Suc n)
  define p where "p = double_pow10 n"
  define u :: real where "u = 1 / 2 ^ 53"
  have u: "0 < u" "u < 1" by (simp_all add: u_def)
  have p: "0 < p * 10" using double_pow10_ge_one[of n] by (simp add: p_def)
  have e: "\<bar>b64 (p * 10) - p * 10\<bar> \<le> p * 10 * u"
    using b64_error_pos[OF p] by (simp add: u_def)
  have d: "double_pow10 (Suc n) = b64 (p * 10)" by (simp add: dmul_def p_def)
  have lo: "10 ^ n * (1 - u) ^ n \<le> p" and hi: "p \<le> 10 ^ n * (1 + u) ^ n"
    using Suc by (simp_all add: p_def u_def)
  have "10 ^ Suc n * (1 - u) ^ Suc n = (10 ^ n * (1 - u) ^ n) * (10 * (1 - u))" by simp
  also have "\<dots> \<le> p * (10 * (1 - u))" using lo u by (intro mult_right_mono) simp_all
  also have "\<dots> \<le> b64 (p * 10)" using e by (simp add: algebra_simps abs_le_iff)
  finally have l: "10 ^ Suc n * (1 - u) ^ Suc n \<le> double_pow10 (Suc n)" by (simp only: d)
  have "b64 (p * 10) \<le> p * (10 * (1 + u))" using e by (simp add: algebra_simps abs_le_iff)
  also have "\<dots> \<le> (10 ^ n * (1 + u) ^ n) * (10 * (1 + u))"
    using hi u by (intro mult_right_mono) simp_all
  also have "\<dots> = 10 ^ Suc n * (1 + u) ^ Suc n" by simp
  finally have h: "double_pow10 (Suc n) \<le> 10 ^ Suc n * (1 + u) ^ Suc n" by (simp only: d)
  show ?case using l h by (simp only: u_def)
qed

lemma small_growth: assumes "0 \<le> u" "2 * real n * u \<le> 1" shows "(1 + u) ^ n \<le> 1 + 2 * real n * u"
  using assms
proof (induction n)
  case 0
  show ?case by simp
next
  case (Suc n)
  have a: "2 * real n * u \<le> 1" using Suc.prems by (simp add: algebra_simps)
  then have i: "(1 + u) ^ n \<le> 1 + 2 * real n * u" using Suc by simp
  have "(1 + u) ^ Suc n = (1 + u) ^ n * (1 + u)" by simp
  also have "\<dots> \<le> (1 + 2 * real n * u) * (1 + u)"
    using i Suc.prems(1) by (intro mult_right_mono) simp_all
  also have "\<dots> = 1 + 2 * real n * u + u + (2 * real n * u) * u" by (simp add: algebra_simps)
  also have "\<dots> \<le> 1 + 2 * real n * u + u + 1 * u"
    using a Suc.prems(1) by (intro add_left_mono mult_right_mono) simp_all
  also have "\<dots> = 1 + 2 * real (Suc n) * u" by (simp add: algebra_simps)
  finally show ?case .
qed

lemma double_pow10_308: "double_pow10 308 \<le> G_MAXDOUBLE"
proof -
  have "(1 + 1 / 2 ^ 53) ^ 308 \<le> 1 + 2 * real 308 * (1 / 2 ^ 53)"
    by (rule small_growth) simp_all
  also have "\<dots> \<le> 3 / 2" by simp
  finally have "(10::real) ^ 308 * (1 + 1 / 2 ^ 53) ^ 308 \<le> 10 ^ 308 * (3 / 2)"
    by (intro mult_left_mono) simp_all
  also have "\<dots> \<le> G_MAXDOUBLE" by (simp add: G_MAXDOUBLE_def)
  finally show ?thesis using double_pow10_bounds[of 308] by linarith
qed

lemma double_pow10_309: "G_MAXDOUBLE < double_pow10 309"
proof -
  have "1 + real 309 * (- (1 / 2 ^ 53)) \<le> (1 + - (1 / 2 ^ 53)) ^ 309"
    by (rule Bernoulli_inequality) simp
  then have "(1::real) / 2 \<le> (1 - 1 / 2 ^ 53) ^ 309" by simp
  then have "(10::real) ^ 309 * (1 / 2) \<le> 10 ^ 309 * (1 - 1 / 2 ^ 53) ^ 309"
    by (intro mult_left_mono) simp_all
  moreover have "G_MAXDOUBLE < 10 ^ 309 * (1 / 2)" by (simp add: G_MAXDOUBLE_def)
  ultimately show ?thesis using double_pow10_bounds[of 309] by linarith
qed

lemma double_pow10_finite: "double_pow10 n \<le> G_MAXDOUBLE \<longleftrightarrow> n \<le> 308"
proof
  assume f: "double_pow10 n \<le> G_MAXDOUBLE"
  show "n \<le> 308"
  proof (rule ccontr)
    assume "\<not> n \<le> 308"
    then have "309 \<le> n" by simp
    then have "double_pow10 309 \<le> double_pow10 n" by (rule double_pow10_mono)
    then show False using f double_pow10_309 by simp
  qed
next
  assume "n \<le> 308"
  then have "double_pow10 n \<le> double_pow10 308" by (rule double_pow10_mono)
  then show "double_pow10 n \<le> G_MAXDOUBLE" using double_pow10_308 by simp
qed

section \<open>Effective inversion\<close>

text \<open>
  C2. For a vertical range the effective inversion is the \<open>inverted\<close> flag. For a
  horizontal range it is true in exactly three cases: inverted and not flippable (whatever
  the text direction), inverted and flippable and left-to-right, not inverted and flippable
  and right-to-left; it is false in every other combination.
\<close>

theorem should_invert_truth_table:
  "should_invert rng =
     (case orientation rng of
        GTK_ORIENTATION_VERTICAL \<Rightarrow> inverted rng
      | GTK_ORIENTATION_HORIZONTAL \<Rightarrow>
          (case (inverted rng, flippable rng, gtk_widget_get_direction rng) of
             (True, False, _) \<Rightarrow> True
           | (True, True, GTK_TEXT_DIR_LTR) \<Rightarrow> True
           | (False, True, GTK_TEXT_DIR_RTL) \<Rightarrow> True
           | _ \<Rightarrow> False))"
  by (cases "orientation rng"; cases "gtk_widget_get_direction rng";
      cases "inverted rng"; cases "flippable rng")
     (simp_all add: should_invert_def)

theorem should_invert_truth_table_witness:
  "should_invert (gtk_range_init\<lparr>flippable := True, gtk_widget_get_direction := GTK_TEXT_DIR_RTL\<rparr>)
   \<and> \<not> should_invert (gtk_range_init\<lparr>flippable := True\<rparr>)
   \<and> should_invert (gtk_range_init\<lparr>orientation := GTK_ORIENTATION_VERTICAL, inverted := True,
                                      flippable := True, gtk_widget_get_direction := GTK_TEXT_DIR_RTL\<rparr>)"
  using should_invert_truth_table
          [of "gtk_range_init\<lparr>flippable := True, gtk_widget_get_direction := GTK_TEXT_DIR_RTL\<rparr>"]
        should_invert_truth_table [of "gtk_range_init\<lparr>flippable := True\<rparr>"]
        should_invert_truth_table
          [of "gtk_range_init\<lparr>orientation := GTK_ORIENTATION_VERTICAL, inverted := True,
                               flippable := True, gtk_widget_get_direction := GTK_TEXT_DIR_RTL\<rparr>"]
  by (simp add: gtk_range_init_def)

section \<open>The GLib macros\<close>

lemma CLAMP_macro_eq: "low \<le> high \<Longrightarrow> CLAMP_macro x low high = max low (min high x)"
  by (auto simp: CLAMP_macro_def)

lemma MIN_macro_eq: "MIN_macro a b = min a b"
  by (auto simp: MIN_macro_def)

lemma MAX_macro_eq: "MAX_macro a b = max a b"
  by (auto simp: MAX_macro_def)

section \<open>The inverse geometry\<close>

lemma dsub_zero_zero: "dsub 0 0 = 0"
  by (simp add: dsub_def b64_zero)

lemma dmul_zero_right: "dmul a 0 = 0"
  by (simp add: dmul_def b64_zero)

lemma dadd_zero_zero: "dadd 0 0 = 0"
  by (simp add: dadd_def b64_zero)

text \<open>
  C3, as amended. For every coordinate, \<^verbatim>\<open>coord_to_value\<close> computes
  \<open>frac = max(0, coord - trough_start) / (trough_length - slider_length)\<close>, or \<open>frac = 1\<close>
  when the two lengths are equal (so it never divides by zero); replaces \<open>frac\<close> by
  \<open>1 - frac\<close> under effective inversion; and returns
  \<open>lower + frac * (upper - lower - page_size)\<close>, not clamped. For the degenerate adjustment
  \<open>lower = upper = 0\<close> with \<open>page_size = 0\<close> it returns \<open>lower\<close> for every coordinate.
\<close>

theorem coord_to_value_formula:
  "coord_to_value rng coord =
     (let frac = (if trough_length rng = slider_length rng then 1
                  else ddiv (max 0 (dsub coord (of_int (trough_start rng))))
                            (of_int (trough_length rng - slider_length rng)));
          frac' = (if should_invert rng then dsub 1 frac else frac)
      in dadd (gtk_adjustment_get_lower (adjustment rng))
              (dmul frac' (dsub (dsub (gtk_adjustment_get_upper (adjustment rng))
                                      (gtk_adjustment_get_lower (adjustment rng)))
                                (gtk_adjustment_get_page_size (adjustment rng)))))
   \<and> (gtk_adjustment_get_lower (adjustment rng) = 0 \<and>
      gtk_adjustment_get_upper (adjustment rng) = 0 \<and>
      gtk_adjustment_get_page_size (adjustment rng) = 0
      \<longrightarrow> coord_to_value rng coord = gtk_adjustment_get_lower (adjustment rng))"
  by (simp add: coord_to_value_def Let_def MAX_macro_eq dsub_zero_zero dmul_zero_right
        dadd_zero_zero)

lemma unclamped_value: "dadd 0 (dmul (ddiv (max 0 (dsub 1000 0)) 90) (dsub (dsub 100 0) 0)) > 100"
  by code_simp

theorem coord_to_value_formula_witness:
  "gtk_adjustment_get_lower (adjustment (gtk_range_init\<lparr>
       trough_alloc := \<lparr>alloc_x = 0, alloc_y = 0, alloc_width = 100, alloc_height = 20\<rparr>,
       slider_alloc := \<lparr>alloc_x = 0, alloc_y = 0, alloc_width = 10, alloc_height = 20\<rparr>\<rparr>)) = 0
   \<and> gtk_adjustment_get_upper (adjustment (gtk_range_init\<lparr>
       trough_alloc := \<lparr>alloc_x = 0, alloc_y = 0, alloc_width = 100, alloc_height = 20\<rparr>,
       slider_alloc := \<lparr>alloc_x = 0, alloc_y = 0, alloc_width = 10, alloc_height = 20\<rparr>\<rparr>)) = 0
   \<and> gtk_adjustment_get_page_size (adjustment (gtk_range_init\<lparr>
       trough_alloc := \<lparr>alloc_x = 0, alloc_y = 0, alloc_width = 100, alloc_height = 20\<rparr>,
       slider_alloc := \<lparr>alloc_x = 0, alloc_y = 0, alloc_width = 10, alloc_height = 20\<rparr>\<rparr>)) = 0
   \<and> coord_to_value (gtk_range_init\<lparr>
       trough_alloc := \<lparr>alloc_x = 0, alloc_y = 0, alloc_width = 100, alloc_height = 20\<rparr>,
       slider_alloc := \<lparr>alloc_x = 0, alloc_y = 0, alloc_width = 10, alloc_height = 20\<rparr>\<rparr>) 45 = 0
   \<and> coord_to_value (gtk_range_init\<lparr>
       adjustment := (adjustment gtk_range_init)\<lparr>gtk_adjustment_get_upper := 100\<rparr>,
       trough_alloc := \<lparr>alloc_x = 0, alloc_y = 0, alloc_width = 100, alloc_height = 20\<rparr>,
       slider_alloc := \<lparr>alloc_x = 0, alloc_y = 0, alloc_width = 10, alloc_height = 20\<rparr>\<rparr>) 1000 > 100"
proof -
  let ?R = "gtk_range_init\<lparr>
       trough_alloc := \<lparr>alloc_x = 0, alloc_y = 0, alloc_width = 100, alloc_height = 20\<rparr>,
       slider_alloc := \<lparr>alloc_x = 0, alloc_y = 0, alloc_width = 10, alloc_height = 20\<rparr>\<rparr>"
  let ?S = "gtk_range_init\<lparr>
       adjustment := (adjustment gtk_range_init)\<lparr>gtk_adjustment_get_upper := 100\<rparr>,
       trough_alloc := \<lparr>alloc_x = 0, alloc_y = 0, alloc_width = 100, alloc_height = 20\<rparr>,
       slider_alloc := \<lparr>alloc_x = 0, alloc_y = 0, alloc_width = 10, alloc_height = 20\<rparr>\<rparr>"
  have h: "gtk_adjustment_get_lower (adjustment ?R) = 0 \<and> gtk_adjustment_get_upper (adjustment ?R) = 0
           \<and> gtk_adjustment_get_page_size (adjustment ?R) = 0"
    by (simp add: gtk_range_init_def)
  have a: "coord_to_value ?R 45 = 0"
    using coord_to_value_formula[of ?R 45] h by simp
  have "coord_to_value ?S 1000 =
          dadd 0 (dmul (ddiv (max 0 (dsub 1000 0)) 90) (dsub (dsub 100 0) 0))"
    using coord_to_value_formula[of ?S 1000]
    by (simp add: gtk_range_init_def trough_length_def slider_length_def trough_start_def
          should_invert_def)
  then have b: "coord_to_value ?S 1000 > 100" using unclamped_value by simp
  show ?thesis using h a b by simp
qed

text \<open>
  With \<open>lower = upper = 0\<close> and a page size of \<open>10\<close> the result is \<open>- frac * 10\<close>: in
  the middle of the travel it is \<open>- 5\<close>, not \<open>lower\<close>.
\<close>

lemma degenerate_value: "dadd 0 (dmul (ddiv (max 0 (dsub 45 0)) 90) (dsub (dsub 0 0) 10)) = - 5"
  by code_simp

theorem coord_to_value_degenerate_counterexample:
  "gtk_adjustment_get_lower (adjustment (gtk_range_init\<lparr>
       adjustment := (adjustment gtk_range_init)\<lparr>gtk_adjustment_get_page_size := 10\<rparr>,
       trough_alloc := \<lparr>alloc_x = 0, alloc_y = 0, alloc_width = 100, alloc_height = 20\<rparr>,
       slider_alloc := \<lparr>alloc_x = 0, alloc_y = 0, alloc_width = 10, alloc_height = 20\<rparr>\<rparr>)) = 0
   \<and> gtk_adjustment_get_upper (adjustment (gtk_range_init\<lparr>
       adjustment := (adjustment gtk_range_init)\<lparr>gtk_adjustment_get_page_size := 10\<rparr>,
       trough_alloc := \<lparr>alloc_x = 0, alloc_y = 0, alloc_width = 100, alloc_height = 20\<rparr>,
       slider_alloc := \<lparr>alloc_x = 0, alloc_y = 0, alloc_width = 10, alloc_height = 20\<rparr>\<rparr>)) = 0
   \<and> coord_to_value (gtk_range_init\<lparr>
       adjustment := (adjustment gtk_range_init)\<lparr>gtk_adjustment_get_page_size := 10\<rparr>,
       trough_alloc := \<lparr>alloc_x = 0, alloc_y = 0, alloc_width = 100, alloc_height = 20\<rparr>,
       slider_alloc := \<lparr>alloc_x = 0, alloc_y = 0, alloc_width = 10, alloc_height = 20\<rparr>\<rparr>) 45 = - 5"
proof -
  let ?R = "gtk_range_init\<lparr>
       adjustment := (adjustment gtk_range_init)\<lparr>gtk_adjustment_get_page_size := 10\<rparr>,
       trough_alloc := \<lparr>alloc_x = 0, alloc_y = 0, alloc_width = 100, alloc_height = 20\<rparr>,
       slider_alloc := \<lparr>alloc_x = 0, alloc_y = 0, alloc_width = 10, alloc_height = 20\<rparr>\<rparr>"
  have "coord_to_value ?R 45 = dadd 0 (dmul (ddiv (max 0 (dsub 45 0)) 90) (dsub (dsub 0 0) 10))"
    by (simp add: coord_to_value_def Let_def MAX_macro_eq gtk_range_init_def trough_length_def
          slider_length_def trough_start_def should_invert_def)
  then show ?thesis using degenerate_value by (simp add: gtk_range_init_def)
qed

section \<open>The value-change funnel\<close>

lemma power_loop_one: "power_loop n 1 = double_pow10 n"
  using power_loop_double_pow10[of n 0] by simp

lemma change_value_funnel:
  assumes "gtk_adjustment_get_lower (adjust_bounds C v (adjustment rng))
         \<le> dsub (gtk_adjustment_get_upper (adjust_bounds C v (adjustment rng)))
                (gtk_adjustment_get_page_size (adjust_bounds C v (adjustment rng)))"
  shows "gtk_range_real_change_value C rng scroll v =
           (False,
            if in_drag rng \<or> autoscroll_id rng \<noteq> 0
            then rng\<lparr>adjustment := gtk_adjustment_set_value C
                                      (funnel_value rng (adjust_bounds C v (adjustment rng)) v)
                                      (adjust_bounds C v (adjustment rng)),
                     adjustment_calls := adjustment_calls rng @
                        [Set_value (funnel_value rng (adjust_bounds C v (adjustment rng)) v)]\<rparr>
            else rng\<lparr>adjustment := gtk_adjustment_animate_to_value C
                                      (funnel_value rng (adjust_bounds C v (adjustment rng)) v)
                                      (adjust_bounds C v (adjustment rng)),
                     adjustment_calls := adjustment_calls rng @
                        [Animate_to_value (funnel_value rng (adjust_bounds C v (adjustment rng)) v)]\<rparr>)"
proof (cases "0 \<le> round_digits rng")
  case True
  show ?thesis
    by (simp only: gtk_range_real_change_value_def Let_def funnel_value_def funnel_round_def
      funnel_clamp_def funnel_cap_def CLAMP_macro_eq[OF assms] MIN_macro_eq MAX_macro_eq
      power_loop_one True if_True)
next
  case False
  show ?thesis
    by (simp only: gtk_range_real_change_value_def Let_def funnel_value_def funnel_round_def
      funnel_clamp_def funnel_cap_def CLAMP_macro_eq[OF assms] MIN_macro_eq MAX_macro_eq False
      if_False)
qed

lemma funnel_in_range_digits:
  assumes "funnel_in_range rng adj v" "0 \<le> round_digits rng"
  shows "round_digits rng \<le> 308"
proof -
  have "normal_double (double_pow10 (nat (round_digits rng)))"
    using assms by (simp add: funnel_in_range_def Let_def)
  then have "double_pow10 (nat (round_digits rng)) \<le> G_MAXDOUBLE"
    using double_pow10_ge_one[of "nat (round_digits rng)"] by (simp add: normal_double_def)
  then have "nat (round_digits rng) \<le> 308" by (simp only: double_pow10_finite)
  then show ?thesis by simp
qed

text \<open>
  C1, as amended. For every scroll type and every finite candidate \<open>v\<close>, with \<open>adj\<close> the
  adjustment as the \<^verbatim>\<open>adjust-bounds\<close> handlers leave it, a non-empty target interval
  \<open>lower \<le> upper - page_size\<close>, and no result of the handler's arithmetic beyond the
  normal range of the doubles, the default handler returns \<^verbatim>\<open>FALSE\<close> and passes to the
  adjustment, by \<^verbatim>\<open>gtk_adjustment_set_value\<close> during a drag or an autoscroll and by
  \<^verbatim>\<open>gtk_adjustment_animate_to_value\<close> otherwise, the value obtained in this order: capped
  at \<open>max(lower, fill_level)\<close> if \<open>restrict_to_fill_level\<close>; clamped into
  \<open>[lower, upper - page_size]\<close>; and, if \<open>round_digits \<ge> 0\<close>, rounded as
  \<open>floor(v * 10 ^ round_digits + 0.5) / 10 ^ round_digits\<close>, each operation in double
  arithmetic. The power is the product of \<open>round_digits\<close> factors \<open>10\<close>; staying in range
  bounds \<open>round_digits\<close> by \<open>308\<close>, and up to \<open>round_digits = 22\<close> the power is exactly
  \<open>10 ^ round_digits\<close>. An exact tie rounds up: with two digits the candidate \<open>0.125\<close>
  commits as the double \<open>0.13\<close>.
\<close>

theorem real_change_value_commits:
  assumes "gtk_adjustment_get_lower (adjust_bounds C v (adjustment rng))
         \<le> dsub (gtk_adjustment_get_upper (adjust_bounds C v (adjustment rng)))
                (gtk_adjustment_get_page_size (adjust_bounds C v (adjustment rng)))"
      and "funnel_in_range rng (adjust_bounds C v (adjustment rng)) v"
  shows "gtk_range_real_change_value C rng scroll v =
           (False,
            if in_drag rng \<or> autoscroll_id rng \<noteq> 0
            then rng\<lparr>adjustment := gtk_adjustment_set_value C
                                      (funnel_value rng (adjust_bounds C v (adjustment rng)) v)
                                      (adjust_bounds C v (adjustment rng)),
                     adjustment_calls := adjustment_calls rng @
                        [Set_value (funnel_value rng (adjust_bounds C v (adjustment rng)) v)]\<rparr>
            else rng\<lparr>adjustment := gtk_adjustment_animate_to_value C
                                      (funnel_value rng (adjust_bounds C v (adjustment rng)) v)
                                      (adjust_bounds C v (adjustment rng)),
                     adjustment_calls := adjustment_calls rng @
                        [Animate_to_value (funnel_value rng (adjust_bounds C v (adjustment rng)) v)]\<rparr>)
     \<and> (0 \<le> round_digits rng \<longrightarrow> round_digits rng \<le> 308)
     \<and> (round_digits rng \<le> 22 \<longrightarrow>
          double_pow10 (nat (round_digits rng)) = 10 ^ nat (round_digits rng))"
  using change_value_funnel[OF assms(1)] double_pow10_exact[of "nat (round_digits rng)"]
    funnel_in_range_digits[OF assms(2)]
  by simp

lemma funnel_value_eighth:
  "funnel_value
     (gtk_range_init\<lparr>adjustment := (adjustment gtk_range_init)\<lparr>gtk_adjustment_get_upper := 10\<rparr>,
                      round_digits := 2\<rparr>)
     ((adjustment gtk_range_init)\<lparr>gtk_adjustment_get_upper := 10\<rparr>) (1 / 8) = b64 (13 / 100)"
  by (simp add: funnel_value_def gtk_range_init_def; code_simp)

lemma funnel_value_1005:
  "funnel_value
     (gtk_range_init\<lparr>adjustment := (adjustment gtk_range_init)\<lparr>gtk_adjustment_get_upper := 10\<rparr>,
                      round_digits := 2\<rparr>)
     ((adjustment gtk_range_init)\<lparr>gtk_adjustment_get_upper := 10\<rparr>) (b64 (1005 / 1000)) = 1"
  by (simp add: funnel_value_def gtk_range_init_def; code_simp)

lemma lower_le_ten: "(0::real) \<le> dsub 10 0"
  by code_simp

lemma normal_double_moderate: assumes "1 / 16 \<le> x" "x \<le> 1000" shows "normal_double x"
proof -
  have "(1::real) / 2 ^ 1022 \<le> 1 / 16" by simp
  moreover have "(1000::real) \<le> G_MAXDOUBLE" by (simp add: G_MAXDOUBLE_def)
  ultimately show ?thesis using assms by (simp add: normal_double_def)
qed

lemma eighth_numbers:
  "dsub 10 0 = 10" "dmul (1 / 8) 100 = 25 / 2" "dadd (25 / 2) (1 / 2) = 13"
  "1 / 16 \<le> ddiv 13 100" "ddiv 13 100 \<le> 1000"
  by code_simp+

lemma funnel_in_range_eighth:
  "funnel_in_range
     (gtk_range_init\<lparr>adjustment := (adjustment gtk_range_init)\<lparr>gtk_adjustment_get_upper := 10\<rparr>,
                      round_digits := 2\<rparr>)
     ((adjustment gtk_range_init)\<lparr>gtk_adjustment_get_upper := 10\<rparr>) (1 / 8)"
proof -
  have p: "double_pow10 2 = 100" using double_pow10_exact[of 2] by simp
  have n: "normal_double 10" "normal_double 100" "normal_double (25 / 2)" "normal_double 13"
    "normal_double (ddiv 13 100)"
    using eighth_numbers(4,5) by (intro normal_double_moderate; simp)+
  show ?thesis
    by (simp add: funnel_in_range_def Let_def funnel_clamp_def funnel_cap_def gtk_range_init_def
          eighth_numbers(1,2,3) p n del: double_pow10.simps)
qed

theorem real_change_value_commits_witness:
  "(0::real) \<le> dsub 10 0
   \<and> funnel_in_range
        (gtk_range_init\<lparr>adjustment := (adjustment gtk_range_init)\<lparr>gtk_adjustment_get_upper := 10\<rparr>,
                         round_digits := 2\<rparr>)
        ((adjustment gtk_range_init)\<lparr>gtk_adjustment_get_upper := 10\<rparr>) (1 / 8)
   \<and> adjustment_calls (snd (gtk_range_real_change_value plain_collaborators
         (gtk_range_init\<lparr>adjustment := (adjustment gtk_range_init)\<lparr>gtk_adjustment_get_upper := 10\<rparr>,
                          round_digits := 2\<rparr>)
         GTK_SCROLL_JUMP (1 / 8)))
       = [Animate_to_value (b64 (13 / 100))]"
proof -
  let ?A = "(adjustment gtk_range_init)\<lparr>gtk_adjustment_get_upper := 10\<rparr>"
  let ?R = "gtk_range_init\<lparr>adjustment := ?A, round_digits := 2\<rparr>"
  have a: "adjust_bounds plain_collaborators (1 / 8) (adjustment ?R) = ?A"
    by (simp add: plain_collaborators_def)
  have h1: "gtk_adjustment_get_lower (adjust_bounds plain_collaborators (1 / 8) (adjustment ?R))
         \<le> dsub (gtk_adjustment_get_upper (adjust_bounds plain_collaborators (1 / 8) (adjustment ?R)))
                (gtk_adjustment_get_page_size (adjust_bounds plain_collaborators (1 / 8) (adjustment ?R)))"
    unfolding a using lower_le_ten by (simp add: gtk_range_init_def)
  have h2: "funnel_in_range ?R (adjust_bounds plain_collaborators (1 / 8) (adjustment ?R)) (1 / 8)"
    unfolding a by (rule funnel_in_range_eighth)
  have "adjustment_calls (snd (gtk_range_real_change_value plain_collaborators ?R GTK_SCROLL_JUMP (1 / 8)))
        = [Animate_to_value (funnel_value ?R ?A (1 / 8))]"
    unfolding real_change_value_commits[OF h1 h2, THEN conjunct1] a by (simp add: gtk_range_init_def)
  then show ?thesis using lower_le_ten funnel_in_range_eighth by (simp only: funnel_value_eighth)
qed

lemma numbers_1005:
  "1 / 16 \<le> dmul (b64 (201 / 200)) 100" "dmul (b64 (201 / 200)) 100 \<le> 1000"
  "1 / 16 \<le> dadd (dmul (b64 (201 / 200)) 100) (1 / 2)"
  "dadd (dmul (b64 (201 / 200)) 100) (1 / 2) \<le> 1000"
  "ddiv (of_int \<lfloor>dadd (dmul (b64 (201 / 200)) 100) (1 / 2)\<rfloor>) 100 = 1"
  "0 \<le> b64 (201 / 200)" "b64 (201 / 200) \<le> 10"
  by code_simp+

lemma funnel_in_range_1005:
  "funnel_in_range
     (gtk_range_init\<lparr>adjustment := (adjustment gtk_range_init)\<lparr>gtk_adjustment_get_upper := 10\<rparr>,
                      round_digits := 2\<rparr>)
     ((adjustment gtk_range_init)\<lparr>gtk_adjustment_get_upper := 10\<rparr>) (b64 (1005 / 1000))"
proof -
  have p: "double_pow10 2 = 100" using double_pow10_exact[of 2] by simp
  have n: "normal_double 10" "normal_double 100" "normal_double 1"
    "normal_double (dmul (b64 (201 / 200)) 100)"
    "normal_double (dadd (dmul (b64 (201 / 200)) 100) (1 / 2))"
    using numbers_1005(1-4) by (intro normal_double_moderate; simp)+
  show ?thesis
    using numbers_1005(6,7)
    by (simp add: funnel_in_range_def Let_def funnel_clamp_def funnel_cap_def gtk_range_init_def
          eighth_numbers(1) numbers_1005(5) p n min_def max_def del: double_pow10.simps)
qed

text \<open>
  The decimal \<open>1.005\<close> is not a double. The double the literal \<^verbatim>\<open>1.005\<close> denotes lies
  below the tie; its product with \<open>100\<close> rounds to a double below \<open>100.5\<close>, and the handler
  commits \<open>1\<close>, which is not the double \<open>1.01\<close>. Every result on the way is in range.
\<close>

theorem real_change_value_1005_counterexample:
  "adjustment_calls (snd (gtk_range_real_change_value plain_collaborators
       (gtk_range_init\<lparr>adjustment := (adjustment gtk_range_init)\<lparr>gtk_adjustment_get_upper := 10\<rparr>,
                        round_digits := 2\<rparr>)
       GTK_SCROLL_JUMP (b64 (1005 / 1000))))
     = [Animate_to_value 1]
   \<and> b64 (101 / 100) \<noteq> 1 \<and> 0 \<le> b64 (1005 / 1000) \<and> b64 (1005 / 1000) \<le> 10
   \<and> funnel_in_range
        (gtk_range_init\<lparr>adjustment := (adjustment gtk_range_init)\<lparr>gtk_adjustment_get_upper := 10\<rparr>,
                         round_digits := 2\<rparr>)
        ((adjustment gtk_range_init)\<lparr>gtk_adjustment_get_upper := 10\<rparr>) (b64 (1005 / 1000))"
proof -
  let ?R = "gtk_range_init\<lparr>adjustment := (adjustment gtk_range_init)\<lparr>gtk_adjustment_get_upper := 10\<rparr>,
                            round_digits := 2\<rparr>"
  let ?v = "b64 (1005 / 1000)"
  have a: "adjust_bounds plain_collaborators ?v (adjustment ?R)
           = (adjustment gtk_range_init)\<lparr>gtk_adjustment_get_upper := 10\<rparr>"
    by (simp add: plain_collaborators_def)
  have h2: "gtk_adjustment_get_lower (adjust_bounds plain_collaborators ?v (adjustment ?R))
         \<le> dsub (gtk_adjustment_get_upper (adjust_bounds plain_collaborators ?v (adjustment ?R)))
                (gtk_adjustment_get_page_size (adjust_bounds plain_collaborators ?v (adjustment ?R)))"
    unfolding a using lower_le_ten by (simp add: gtk_range_init_def)
  have "adjustment_calls (snd (gtk_range_real_change_value plain_collaborators ?R GTK_SCROLL_JUMP ?v))
        = [Animate_to_value (funnel_value ?R ((adjustment gtk_range_init)\<lparr>gtk_adjustment_get_upper := 10\<rparr>) ?v)]"
    unfolding change_value_funnel[OF h2] a by (simp add: gtk_range_init_def)
  then have "adjustment_calls (snd (gtk_range_real_change_value plain_collaborators ?R GTK_SCROLL_JUMP ?v))
        = [Animate_to_value 1]"
    by (simp only: funnel_value_1005)
  moreover have "b64 (101 / 100) \<noteq> 1 \<and> 0 \<le> b64 (1005 / 1000) \<and> b64 (1005 / 1000) \<le> 10"
    by code_simp
  ultimately show ?thesis using funnel_in_range_1005 by simp
qed

lemma funnel_value_beyond_upper:
  "funnel_value
     (gtk_range_init\<lparr>adjustment := (adjustment gtk_range_init)\<lparr>gtk_adjustment_get_upper := b64 (996 / 1000)\<rparr>,
                      round_digits := 2\<rparr>)
     ((adjustment gtk_range_init)\<lparr>gtk_adjustment_get_upper := b64 (996 / 1000)\<rparr>) 10 = 1"
  by (simp add: funnel_value_def gtk_range_init_def; code_simp)

lemma upper_0996: "0 \<le> dsub (b64 (996 / 1000)) 0 \<and> dsub (b64 (996 / 1000)) 0 < 1"
  by code_simp

text \<open>
  C10. The handler rounds after it clamps, so the committed value can leave the target
  interval: with \<open>lower = 0\<close>, \<open>upper = 0.996\<close>, \<open>page_size = 0\<close>, two digits and the
  candidate \<open>10\<close>, the value passed to the adjustment is \<open>1\<close>, strictly greater than
  \<open>upper - page_size\<close>.
\<close>

theorem rounding_after_clamping_exceeds_upper:
  "adjustment_calls (snd (gtk_range_real_change_value plain_collaborators
       (gtk_range_init\<lparr>adjustment := (adjustment gtk_range_init)\<lparr>gtk_adjustment_get_upper := b64 (996 / 1000)\<rparr>,
                        round_digits := 2\<rparr>)
       GTK_SCROLL_JUMP 10))
     = [Animate_to_value 1]
   \<and> dsub (b64 (996 / 1000)) 0 < 1"
proof -
  let ?A = "(adjustment gtk_range_init)\<lparr>gtk_adjustment_get_upper := b64 (996 / 1000)\<rparr>"
  let ?R = "gtk_range_init\<lparr>adjustment := ?A, round_digits := 2\<rparr>"
  have h1: "round_digits ?R \<le> 22" by (simp add: gtk_range_init_def)
  have a: "adjust_bounds plain_collaborators 10 (adjustment ?R) = ?A"
    by (simp add: plain_collaborators_def)
  have h2: "gtk_adjustment_get_lower (adjust_bounds plain_collaborators 10 (adjustment ?R))
         \<le> dsub (gtk_adjustment_get_upper (adjust_bounds plain_collaborators 10 (adjustment ?R)))
                (gtk_adjustment_get_page_size (adjust_bounds plain_collaborators 10 (adjustment ?R)))"
    unfolding a using upper_0996 by (simp add: gtk_range_init_def)
  have "adjustment_calls (snd (gtk_range_real_change_value plain_collaborators ?R GTK_SCROLL_JUMP 10))
        = [Animate_to_value (funnel_value ?R ?A 10)]"
    unfolding change_value_funnel[OF h2] a by (simp add: gtk_range_init_def)
  then have "adjustment_calls (snd (gtk_range_real_change_value plain_collaborators ?R GTK_SCROLL_JUMP 10))
        = [Animate_to_value 1]"
    by (simp only: funnel_value_beyond_upper)
  then show ?thesis using upper_0996 by simp
qed

section \<open>Marks and the scroll actions\<close>


lemma real_change_value_emitted:
  "change_value_emitted (snd (gtk_range_real_change_value C rng scroll v)) = change_value_emitted rng"
  by (simp add: gtk_range_real_change_value_def Let_def if_distrib[where f = change_value_emitted] cong: if_cong
        split del: if_split)

lemma real_change_value_error_bells:
  "error_bells (snd (gtk_range_real_change_value C rng scroll v)) = error_bells rng"
  by (simp add: gtk_range_real_change_value_def Let_def if_distrib[where f = error_bells] cong: if_cong
        split del: if_split)

lemma emit_change_value_emitted:
  "change_value_emitted (snd (emit_change_value C rng scroll v)) = change_value_emitted rng @ [(scroll, v)]"
  by (simp add: emit_change_value_def real_change_value_emitted)

lemma emit_change_value_error_bells:
  "error_bells (snd (emit_change_value C rng scroll v)) = error_bells rng"
  by (simp add: emit_change_value_def real_change_value_error_bells)



lemma small_sums: "dadd 3 4 = 7" "dsub 5 4 = 1" "dsub 0 1 = - 1" "dadd 0 1 = 1" "dsub 10 0 = 10"
  by code_simp+




section \<open>The keyboard entry point\<close>

lemma scroll_action_error_bells:
  "error_bells (gtk_range_scroll_action C rng scroll) = error_bells rng"
  by (cases scroll)
     (simp_all add: step_forward_def step_back_def page_forward_def page_back_def
        scroll_begin_def scroll_end_def Let_def emit_change_value_error_bells)

lemma move_slider_adjustment:
  "adjustment (gtk_range_move_slider C rng scroll) = adjustment (gtk_range_scroll_action C rng scroll)"
  by (simp add: gtk_range_move_slider_def gtk_range_scroll_def Let_def gtk_widget_error_bell_def)

text \<open>
  C7. For every scroll action, \<^verbatim>\<open>gtk_range_move_slider\<close> rings the error bell once if
  the adjustment's stored value after the action equals the value before it, and does not
  ring it if the value has changed.
\<close>

theorem move_slider_error_bell:
  "error_bells (gtk_range_move_slider C rng scroll) =
     (if gtk_adjustment_get_value (adjustment (gtk_range_move_slider C rng scroll))
         = gtk_adjustment_get_value (adjustment rng)
      then Suc (error_bells rng) else error_bells rng)"
  by (simp add: gtk_range_move_slider_def gtk_range_scroll_def Let_def gtk_widget_error_bell_def
        scroll_action_error_bells)


lemma at_lower_bound_step_back:
  "gtk_adjustment_get_value (adjustment (gtk_range_scroll_action plain_collaborators
     (gtk_range_init\<lparr>adjustment := \<lparr>gtk_adjustment_get_value = 0, gtk_adjustment_get_lower = 0,
          gtk_adjustment_get_upper = 10, gtk_adjustment_get_step_increment = 1,
          gtk_adjustment_get_page_increment = 5, gtk_adjustment_get_page_size = 0\<rparr>\<rparr>)
     GTK_SCROLL_STEP_BACKWARD)) = 0"
  by (simp add: step_back_def emit_change_value_def gtk_range_real_change_value_def Let_def
        plain_collaborators_def plain_set_value_def gtk_range_init_def apply_marks_def
        MIN_macro_def MAX_macro_def CLAMP_macro_def small_sums)

lemma at_lower_bound_step_forward:
  "gtk_adjustment_get_value (adjustment (gtk_range_scroll_action plain_collaborators
     (gtk_range_init\<lparr>adjustment := \<lparr>gtk_adjustment_get_value = 0, gtk_adjustment_get_lower = 0,
          gtk_adjustment_get_upper = 10, gtk_adjustment_get_step_increment = 1,
          gtk_adjustment_get_page_increment = 5, gtk_adjustment_get_page_size = 0\<rparr>\<rparr>)
     GTK_SCROLL_STEP_FORWARD)) = 1"
  by (simp add: step_forward_def emit_change_value_def gtk_range_real_change_value_def Let_def
        plain_collaborators_def plain_set_value_def gtk_range_init_def apply_marks_def
        MIN_macro_def MAX_macro_def CLAMP_macro_def small_sums)

theorem move_slider_error_bell_witness:
  "error_bells (gtk_range_move_slider plain_collaborators
     (gtk_range_init\<lparr>adjustment := \<lparr>gtk_adjustment_get_value = 0, gtk_adjustment_get_lower = 0,
          gtk_adjustment_get_upper = 10, gtk_adjustment_get_step_increment = 1,
          gtk_adjustment_get_page_increment = 5, gtk_adjustment_get_page_size = 0\<rparr>\<rparr>)
     GTK_SCROLL_STEP_BACKWARD) = 1
   \<and> error_bells (gtk_range_move_slider plain_collaborators
     (gtk_range_init\<lparr>adjustment := \<lparr>gtk_adjustment_get_value = 0, gtk_adjustment_get_lower = 0,
          gtk_adjustment_get_upper = 10, gtk_adjustment_get_step_increment = 1,
          gtk_adjustment_get_page_increment = 5, gtk_adjustment_get_page_size = 0\<rparr>\<rparr>)
     GTK_SCROLL_STEP_FORWARD) = 0"
proof -
  let ?R = "gtk_range_init\<lparr>adjustment := \<lparr>gtk_adjustment_get_value = 0, gtk_adjustment_get_lower = 0,
          gtk_adjustment_get_upper = 10, gtk_adjustment_get_step_increment = 1,
          gtk_adjustment_get_page_increment = 5, gtk_adjustment_get_page_size = 0\<rparr>\<rparr>"
  have a: "error_bells ?R = 0" "gtk_adjustment_get_value (adjustment ?R) = 0"
    by (simp_all add: gtk_range_init_def)
  show ?thesis
    using move_slider_error_bell[of plain_collaborators ?R GTK_SCROLL_STEP_BACKWARD]
      move_slider_error_bell[of plain_collaborators ?R GTK_SCROLL_STEP_FORWARD]
    unfolding move_slider_adjustment at_lower_bound_step_back at_lower_bound_step_forward a
    by simp
qed

section \<open>Dragging the slider\<close>

lemma snap_marks_loop_find:
  "snap_marks_loop ms cur mark_delta new_value =
     (case find (attracts cur mark_delta new_value) ms of None \<Rightarrow> new_value | Some m \<Rightarrow> m)"
  by (induction ms) (simp_all add: attracts_def)

lemma coord_to_value_slide_position:
  "coord_to_value (rng\<lparr>slide_initial_slider_position := pos\<rparr>) c = coord_to_value rng c"
proof -
  let ?r = "rng\<lparr>slide_initial_slider_position := pos\<rparr>"
  have "trough_length ?r = trough_length rng" "slider_length ?r = slider_length rng"
    "trough_start ?r = trough_start rng" "should_invert ?r = should_invert rng"
    by (simp_all add: trough_length_def slider_length_def trough_start_def should_invert_def)
  then show ?thesis by (simp add: coord_to_value_def)
qed

lemma slide_to_coordinate_emitted:
  "change_value_emitted (slide_to_coordinate C rng c) = change_value_emitted rng @
     [(GTK_SCROLL_JUMP,
       case find (attracts (gtk_adjustment_get_value (adjustment rng))
                    \<bar>dsub (coord_to_value rng (dadd c 1)) (coord_to_value rng c)\<bar>
                    (coord_to_value rng c)) (marks rng) of
         Some m \<Rightarrow> m
       | None \<Rightarrow> coord_to_value rng c)]"
  by (simp add: slide_to_coordinate_def Let_def emit_change_value_emitted snap_marks_loop_find
        split: option.split)

lemma update_slider_position_emitted:
  assumes "slider_coordinate rng mx my = Some (pos, c)"
  shows "\<exists>after. update_slider_position C rng mx my = Some after \<and>
           change_value_emitted after = change_value_emitted rng @
             [(GTK_SCROLL_JUMP,
               case find (attracts (gtk_adjustment_get_value (adjustment rng))
                            \<bar>dsub (coord_to_value rng (dadd c 1)) (coord_to_value rng c)\<bar>
                            (coord_to_value rng c)) (marks rng) of
                 Some m \<Rightarrow> m
               | None \<Rightarrow> coord_to_value rng c)]"
  using assms
  by (simp add: update_slider_position_def slide_to_coordinate_emitted
        coord_to_value_slide_position cong: option.case_cong)

text \<open>
  C5, as amended. During a slider drag update that reaches the synthetic slider coordinate
  \<open>c\<close>, with \<open>candidate = coord_to_value(c)\<close> and
  \<open>mark_delta = |coord_to_value(c + 1) - coord_to_value(c)|\<close>, exactly one
  \<^verbatim>\<open>change-value\<close> is emitted, with the reason jump. Its value is the first mark \<open>m\<close> of
  the marks array with \<open>|current value - m| < 3 * mark_delta\<close> and
  \<open>|candidate - m| < 12 * mark_delta\<close>; when no mark satisfies both, it is the candidate,
  unchanged.
\<close>

theorem drag_snaps_to_first_attracting_mark:
  assumes "slider_coordinate rng mx my = Some (pos, c)"
  shows "\<exists>after. update_slider_position C rng mx my = Some after \<and>
           change_value_emitted after = change_value_emitted rng @
             [(GTK_SCROLL_JUMP,
               case find (attracts (gtk_adjustment_get_value (adjustment rng))
                            \<bar>dsub (coord_to_value rng (dadd c 1)) (coord_to_value rng c)\<bar>
                            (coord_to_value rng c)) (marks rng) of
                 Some m \<Rightarrow> m
               | None \<Rightarrow> coord_to_value rng c)]"
  using assms by (rule update_slider_position_emitted)


lemma drag_numbers:
  "dadd 50 (dmul 1 1) = 51" "dadd 51 1 = 52" "dadd 50 (dmul 1 15) = 65" "dadd 65 1 = 66"
  "dadd 0 (dmul (ddiv (max 0 (dsub 51 0)) 100) (dsub (dsub 100 0) 0)) = 51"
  "dadd 0 (dmul (ddiv (max 0 (dsub 52 0)) 100) (dsub (dsub 100 0) 0)) = 52"
  "dadd 0 (dmul (ddiv (max 0 (dsub 65 0)) 100) (dsub (dsub 100 0) 0)) = 65"
  "dadd 0 (dmul (ddiv (max 0 (dsub 66 0)) 100) (dsub (dsub 100 0) 0)) = 66"
  "dsub 52 51 = 1" "dsub 66 65 = 1" "dmul 3 1 = 3" "dmul 12 1 = 12"
  "dsub 50 50 = 0" "dsub 51 50 = 1" "dsub 65 50 = 15" "dsub 50 52 = - 2" "dsub 51 52 = - 1"
  by code_simp+

lemma drag_coord_to_value:
  "coord_to_value (gtk_range_init\<lparr>
       adjustment := \<lparr>gtk_adjustment_get_value = 50, gtk_adjustment_get_lower = 0,
          gtk_adjustment_get_upper = 100, gtk_adjustment_get_step_increment = 1,
          gtk_adjustment_get_page_increment = 10, gtk_adjustment_get_page_size = 0\<rparr>,
       trough_alloc := \<lparr>alloc_x = 0, alloc_y = 0, alloc_width = 110, alloc_height = 20\<rparr>,
       slider_alloc := \<lparr>alloc_x = 50, alloc_y = 0, alloc_width = 10, alloc_height = 20\<rparr>,
       slide_initial_slider_position := 50, slide_initial_coordinate_delta := 5,
       marks := ms\<rparr>) c
   = dadd 0 (dmul (ddiv (max 0 (dsub c 0)) 100) (dsub (dsub 100 0) 0))"
  by (simp add: coord_to_value_def Let_def MAX_macro_eq gtk_range_init_def trough_length_def
        slider_length_def trough_start_def should_invert_def)

lemma drag_slider_coordinate:
  "slider_coordinate (gtk_range_init\<lparr>
       adjustment := \<lparr>gtk_adjustment_get_value = 50, gtk_adjustment_get_lower = 0,
          gtk_adjustment_get_upper = 100, gtk_adjustment_get_step_increment = 1,
          gtk_adjustment_get_page_increment = 10, gtk_adjustment_get_page_size = 0\<rparr>,
       trough_alloc := \<lparr>alloc_x = 0, alloc_y = 0, alloc_width = 110, alloc_height = 20\<rparr>,
       slider_alloc := \<lparr>alloc_x = 50, alloc_y = 0, alloc_width = 10, alloc_height = 20\<rparr>,
       slide_initial_slider_position := 50, slide_initial_coordinate_delta := 5,
       marks := ms\<rparr>) 56 10 = Some (50, 51)"
  "slider_coordinate (gtk_range_init\<lparr>
       adjustment := \<lparr>gtk_adjustment_get_value = 50, gtk_adjustment_get_lower = 0,
          gtk_adjustment_get_upper = 100, gtk_adjustment_get_step_increment = 1,
          gtk_adjustment_get_page_increment = 10, gtk_adjustment_get_page_size = 0\<rparr>,
       trough_alloc := \<lparr>alloc_x = 0, alloc_y = 0, alloc_width = 110, alloc_height = 20\<rparr>,
       slider_alloc := \<lparr>alloc_x = 50, alloc_y = 0, alloc_width = 10, alloc_height = 20\<rparr>,
       slide_initial_slider_position := 50, slide_initial_coordinate_delta := 5,
       marks := ms\<rparr>) 70 10 = Some (50, 65)"
  by (simp_all add: slider_coordinate_def zoom_factor_def recalculated_initial_position_def
        Let_def gtk_range_init_def drag_numbers)

theorem drag_snaps_to_first_attracting_mark_witness:
  "slider_coordinate (gtk_range_init\<lparr>
       adjustment := \<lparr>gtk_adjustment_get_value = 50, gtk_adjustment_get_lower = 0,
          gtk_adjustment_get_upper = 100, gtk_adjustment_get_step_increment = 1,
          gtk_adjustment_get_page_increment = 10, gtk_adjustment_get_page_size = 0\<rparr>,
       trough_alloc := \<lparr>alloc_x = 0, alloc_y = 0, alloc_width = 110, alloc_height = 20\<rparr>,
       slider_alloc := \<lparr>alloc_x = 50, alloc_y = 0, alloc_width = 10, alloc_height = 20\<rparr>,
       slide_initial_slider_position := 50, slide_initial_coordinate_delta := 5,
       marks := [50]\<rparr>) 56 10 = Some (50, 51)
   \<and> (\<exists>after. update_slider_position plain_collaborators (gtk_range_init\<lparr>
       adjustment := \<lparr>gtk_adjustment_get_value = 50, gtk_adjustment_get_lower = 0,
          gtk_adjustment_get_upper = 100, gtk_adjustment_get_step_increment = 1,
          gtk_adjustment_get_page_increment = 10, gtk_adjustment_get_page_size = 0\<rparr>,
       trough_alloc := \<lparr>alloc_x = 0, alloc_y = 0, alloc_width = 110, alloc_height = 20\<rparr>,
       slider_alloc := \<lparr>alloc_x = 50, alloc_y = 0, alloc_width = 10, alloc_height = 20\<rparr>,
       slide_initial_slider_position := 50, slide_initial_coordinate_delta := 5,
       marks := [50]\<rparr>) 56 10 = Some after
       \<and> change_value_emitted after = [(GTK_SCROLL_JUMP, 50)])
   \<and> (\<exists>after. update_slider_position plain_collaborators (gtk_range_init\<lparr>
       adjustment := \<lparr>gtk_adjustment_get_value = 50, gtk_adjustment_get_lower = 0,
          gtk_adjustment_get_upper = 100, gtk_adjustment_get_step_increment = 1,
          gtk_adjustment_get_page_increment = 10, gtk_adjustment_get_page_size = 0\<rparr>,
       trough_alloc := \<lparr>alloc_x = 0, alloc_y = 0, alloc_width = 110, alloc_height = 20\<rparr>,
       slider_alloc := \<lparr>alloc_x = 50, alloc_y = 0, alloc_width = 10, alloc_height = 20\<rparr>,
       slide_initial_slider_position := 50, slide_initial_coordinate_delta := 5,
       marks := [50]\<rparr>) 70 10 = Some after
       \<and> change_value_emitted after = [(GTK_SCROLL_JUMP, 65)])"
proof -
  let ?R = "gtk_range_init\<lparr>
       adjustment := \<lparr>gtk_adjustment_get_value = 50, gtk_adjustment_get_lower = 0,
          gtk_adjustment_get_upper = 100, gtk_adjustment_get_step_increment = 1,
          gtk_adjustment_get_page_increment = 10, gtk_adjustment_get_page_size = 0\<rparr>,
       trough_alloc := \<lparr>alloc_x = 0, alloc_y = 0, alloc_width = 110, alloc_height = 20\<rparr>,
       slider_alloc := \<lparr>alloc_x = 50, alloc_y = 0, alloc_width = 10, alloc_height = 20\<rparr>,
       slide_initial_slider_position := 50, slide_initial_coordinate_delta := 5,
       marks := [50]\<rparr>"
  have f: "gtk_adjustment_get_value (adjustment ?R) = 50" "marks ?R = [50]"
    "change_value_emitted ?R = []"
    by (simp_all add: gtk_range_init_def)
  show ?thesis
    using drag_snaps_to_first_attracting_mark
            [OF drag_slider_coordinate(1)[of "[50]"], of plain_collaborators]
      drag_snaps_to_first_attracting_mark
            [OF drag_slider_coordinate(2)[of "[50]"], of plain_collaborators]
    unfolding drag_coord_to_value f
    by (simp add: drag_slider_coordinate drag_numbers attracts_def)
qed

text \<open>
  With the marks \<open>[50, 52]\<close>, the current value \<open>50\<close>, the candidate \<open>51\<close> and a mark delta
  of \<open>1\<close>, the mark \<open>52\<close> satisfies both conditions, but the candidate is replaced by \<open>50\<close>.
\<close>

theorem drag_second_attracting_mark_counterexample:
  "attracts 50 1 51 52
   \<and> (\<exists>after. update_slider_position plain_collaborators (gtk_range_init\<lparr>
       adjustment := \<lparr>gtk_adjustment_get_value = 50, gtk_adjustment_get_lower = 0,
          gtk_adjustment_get_upper = 100, gtk_adjustment_get_step_increment = 1,
          gtk_adjustment_get_page_increment = 10, gtk_adjustment_get_page_size = 0\<rparr>,
       trough_alloc := \<lparr>alloc_x = 0, alloc_y = 0, alloc_width = 110, alloc_height = 20\<rparr>,
       slider_alloc := \<lparr>alloc_x = 50, alloc_y = 0, alloc_width = 10, alloc_height = 20\<rparr>,
       slide_initial_slider_position := 50, slide_initial_coordinate_delta := 5,
       marks := [50, 52]\<rparr>) 56 10 = Some after
       \<and> change_value_emitted after = [(GTK_SCROLL_JUMP, 50)])"
proof -
  let ?R = "gtk_range_init\<lparr>
       adjustment := \<lparr>gtk_adjustment_get_value = 50, gtk_adjustment_get_lower = 0,
          gtk_adjustment_get_upper = 100, gtk_adjustment_get_step_increment = 1,
          gtk_adjustment_get_page_increment = 10, gtk_adjustment_get_page_size = 0\<rparr>,
       trough_alloc := \<lparr>alloc_x = 0, alloc_y = 0, alloc_width = 110, alloc_height = 20\<rparr>,
       slider_alloc := \<lparr>alloc_x = 50, alloc_y = 0, alloc_width = 10, alloc_height = 20\<rparr>,
       slide_initial_slider_position := 50, slide_initial_coordinate_delta := 5,
       marks := [50, 52]\<rparr>"
  have f: "gtk_adjustment_get_value (adjustment ?R) = 50" "marks ?R = [50, 52]"
    "change_value_emitted ?R = []"
    by (simp_all add: gtk_range_init_def)
  show ?thesis
    using update_slider_position_emitted
            [OF drag_slider_coordinate(1)[of "[50, 52]"], of plain_collaborators]
    unfolding drag_coord_to_value f
    by (simp add: drag_numbers attracts_def)
qed

section \<open>Autoscroll\<close>















lemma add_autoscroll_mode: "autoscroll_mode (add_autoscroll rng) = autoscroll_mode rng"
  by (simp add: add_autoscroll_def Let_def)

lemma update_autoscroll_mode_emitted:
  "change_value_emitted (update_autoscroll_mode rng) = change_value_emitted rng"
  by (simp add: update_autoscroll_mode_def Let_def add_autoscroll_def remove_autoscroll_def
        split_def)

lemma drag_update_near_edge:
  assumes "grab_location rng = Some slider_widget" "zoom rng"
    and "double_to_gint (dadd (fst start_point) offset_x) = Some mx"
    and "double_to_gint (dadd (snd start_point) offset_y) = Some my"
    and "(if orientation rng = GTK_ORIENTATION_VERTICAL then my else mx) < 15"
  shows "\<exists>after. gtk_range_drag_gesture_update C rng start_point offset_x offset_y = Some after \<and>
           autoscroll_mode after =
             (if inverted rng then GTK_SCROLL_STEP_FORWARD else GTK_SCROLL_STEP_BACKWARD) \<and>
           change_value_emitted after = change_value_emitted rng"
proof -
  let ?r = "rng\<lparr>mouse_x := mx, mouse_y := my, in_drag := True\<rparr>"
  have m: "autoscroll_mode (update_autoscroll_mode ?r) =
             (if inverted rng then GTK_SCROLL_STEP_FORWARD else GTK_SCROLL_STEP_BACKWARD)"
  proof (cases "orientation rng = GTK_ORIENTATION_VERTICAL")
    case True
    then have "my < 15" using assms(5) by simp
    then show ?thesis
      using True assms(2) by (simp add: update_autoscroll_mode_def Let_def add_autoscroll_mode)
  next
    case False
    then have "mx < 15" using assms(5) by simp
    then show ?thesis
      using False assms(2) by (simp add: update_autoscroll_mode_def Let_def add_autoscroll_mode)
  qed
  then have n: "autoscroll_mode (update_autoscroll_mode ?r) \<noteq> GTK_SCROLL_NONE" by simp
  have "gtk_range_drag_gesture_update C rng start_point offset_x offset_y
          = Some (update_autoscroll_mode ?r)"
    using assms(1,3,4) n by (simp add: gtk_range_drag_gesture_update_def Let_def)
  moreover have "change_value_emitted (update_autoscroll_mode ?r) = change_value_emitted rng"
    by (simp add: update_autoscroll_mode_emitted)
  ultimately show ?thesis using m by simp
qed

text \<open>
  C8. What the code does: during a zoom-mode drag, with the pointer less than \<open>15\<close> pixels
  from the near edge along the axis, \<^verbatim>\<open>update_autoscroll_mode\<close> selects step-forward if
  the \<open>inverted\<close> flag is set and step-backward otherwise; more than \<open>size - 15\<close> pixels
  along, the reverse; and the drag update then leaves the slider to the autoscroll and
  emits no \<^verbatim>\<open>change-value\<close> itself. The direction follows the flag, not
  \<^verbatim>\<open>should_invert\<close>: for a horizontal, flippable, right-to-left range that is not
  inverted, the effective inversion holds and the near edge still selects step-backward.
\<close>

theorem autoscroll_edge_direction:
  "(zoom rng \<and> (if orientation rng = GTK_ORIENTATION_VERTICAL then mouse_y rng else mouse_x rng) < 15
      \<longrightarrow> autoscroll_mode (update_autoscroll_mode rng) =
            (if inverted rng then GTK_SCROLL_STEP_FORWARD else GTK_SCROLL_STEP_BACKWARD))
   \<and> (zoom rng \<and> \<not> (if orientation rng = GTK_ORIENTATION_VERTICAL then mouse_y rng else mouse_x rng) < 15
       \<and> (if orientation rng = GTK_ORIENTATION_VERTICAL then mouse_y rng else mouse_x rng)
           > (if orientation rng = GTK_ORIENTATION_VERTICAL then gtk_widget_get_height rng
              else gtk_widget_get_width rng) - 15
      \<longrightarrow> autoscroll_mode (update_autoscroll_mode rng) =
            (if inverted rng then GTK_SCROLL_STEP_BACKWARD else GTK_SCROLL_STEP_FORWARD))
   \<and> (grab_location rng = Some slider_widget \<and> zoom rng \<and>
      double_to_gint (dadd (fst start_point) offset_x) = Some mx \<and>
      double_to_gint (dadd (snd start_point) offset_y) = Some my \<and>
      (if orientation rng = GTK_ORIENTATION_VERTICAL then my else mx) < 15
      \<longrightarrow> (\<exists>after. gtk_range_drag_gesture_update C rng start_point offset_x offset_y = Some after \<and>
             autoscroll_mode after =
               (if inverted rng then GTK_SCROLL_STEP_FORWARD else GTK_SCROLL_STEP_BACKWARD) \<and>
             change_value_emitted after = change_value_emitted rng))"
  using drag_update_near_edge[of rng start_point offset_x mx offset_y my C]
  by (auto simp: update_autoscroll_mode_def Let_def add_autoscroll_mode)

lemma drag_point: "double_to_gint (dadd 30 (- 25)) = Some 5" "double_to_gint (dadd 10 0) = Some 10"
  by (simp_all add: double_to_gint_def dadd_def b64_of_int[of 5, simplified]
        b64_of_int[of 10, simplified])

theorem autoscroll_edge_direction_witness:
  "should_invert (gtk_range_init\<lparr>flippable := True, gtk_widget_get_direction := GTK_TEXT_DIR_RTL,
          zoom := True, mouse_x := 5, mouse_y := 10, gtk_widget_get_width := 200,
          gtk_widget_get_height := 20\<rparr>)
   \<and> mouse_x (gtk_range_init\<lparr>flippable := True, gtk_widget_get_direction := GTK_TEXT_DIR_RTL,
          zoom := True, mouse_x := 5, mouse_y := 10, gtk_widget_get_width := 200,
          gtk_widget_get_height := 20\<rparr>) < 15
   \<and> autoscroll_mode (update_autoscroll_mode
        (gtk_range_init\<lparr>flippable := True, gtk_widget_get_direction := GTK_TEXT_DIR_RTL,
          zoom := True, mouse_x := 5, mouse_y := 10, gtk_widget_get_width := 200,
          gtk_widget_get_height := 20\<rparr>)) = GTK_SCROLL_STEP_BACKWARD
   \<and> double_to_gint (dadd 30 (- 25)) = Some 5 \<and> double_to_gint (dadd 10 0) = Some 10
   \<and> (\<exists>after. gtk_range_drag_gesture_update plain_collaborators
        (gtk_range_init\<lparr>flippable := True, gtk_widget_get_direction := GTK_TEXT_DIR_RTL,
          zoom := True, grab_location := Some slider_widget, gtk_widget_get_width := 200,
          gtk_widget_get_height := 20\<rparr>) (30, 10) (- 25) 0 = Some after
      \<and> autoscroll_mode after = GTK_SCROLL_STEP_BACKWARD)"
proof -
  let ?R = "gtk_range_init\<lparr>flippable := True, gtk_widget_get_direction := GTK_TEXT_DIR_RTL,
          zoom := True, mouse_x := 5, mouse_y := 10, gtk_widget_get_width := 200,
          gtk_widget_get_height := 20\<rparr>"
  let ?S = "gtk_range_init\<lparr>flippable := True, gtk_widget_get_direction := GTK_TEXT_DIR_RTL,
          zoom := True, grab_location := Some slider_widget, gtk_widget_get_width := 200,
          gtk_widget_get_height := 20\<rparr>"
  have a: "should_invert ?R" by (simp add: should_invert_def gtk_range_init_def)
  have b: "autoscroll_mode (update_autoscroll_mode ?R) = GTK_SCROLL_STEP_BACKWARD"
    using autoscroll_edge_direction[of ?R "(30, 10)" "- 25" 5 0 10 plain_collaborators]
    by (simp add: gtk_range_init_def)
  have p: "grab_location ?S = Some slider_widget \<and> zoom ?S \<and>
      double_to_gint (dadd (fst (30, 10)) (- 25)) = Some 5 \<and>
      double_to_gint (dadd (snd (30, 10)) 0) = Some 10 \<and>
      (if orientation ?S = GTK_ORIENTATION_VERTICAL then 10 else (5::int)) < 15"
    using drag_point by (simp add: gtk_range_init_def)
  have i: "\<not> inverted ?S" by (simp add: gtk_range_init_def)
  obtain after where
    "gtk_range_drag_gesture_update plain_collaborators ?S (30, 10) (- 25) 0 = Some after"
    "autoscroll_mode after =
       (if inverted ?S then GTK_SCROLL_STEP_FORWARD else GTK_SCROLL_STEP_BACKWARD)"
    using autoscroll_edge_direction[of ?S "(30, 10)" "- 25" 5 0 10 plain_collaborators] p
    by blast
  then have c: "\<exists>after. gtk_range_drag_gesture_update plain_collaborators ?S (30, 10) (- 25) 0 = Some after
      \<and> autoscroll_mode after = GTK_SCROLL_STEP_BACKWARD"
    using i by auto
  have d: "mouse_x ?R < 15" by (simp add: gtk_range_init_def)
  show ?thesis using a b c d drag_point by blast
qed

section \<open>The end of a grab\<close>

lemma stop_scrolling_stopped: "scrolling_stopped rng (stop_scrolling rng)"
  by (cases "timer rng")
     (auto simp: scrolling_stopped_def stop_scrolling_def remove_autoscroll_def
        gtk_range_remove_step_timer_def range_grab_remove_def update_zoom_state_def)

lemma stop_scrolling_in_drag: "in_drag (stop_scrolling rng) = in_drag rng"
  by (cases "timer rng")
     (auto simp: stop_scrolling_def remove_autoscroll_def
        gtk_range_remove_step_timer_def range_grab_remove_def update_zoom_state_def)

lemma scrolling_stopped_cong:
  assumes "grab_location a = grab_location b" "timer a = timer b" "autoscroll_id a = autoscroll_id b"
  shows "scrolling_stopped a r = scrolling_stopped b r"
  using assms by (simp add: scrolling_stopped_def)

text \<open>
  C9. What the code does: after unmap, after Escape during an active drag with a grab,
  and after a button release, the grab location is none, the repeat timer is removed and
  its timeout source cancelled, the autoscroll callback is removed, the autoscroll mode
  is none, and the zoom mode is off if a grab was active (it always is for Escape). The
  in-drag flag is cleared by the button release only, which resets it before it calls
  \<^verbatim>\<open>stop_scrolling\<close>; unmap and Escape call \<^verbatim>\<open>stop_scrolling\<close> alone and leave the
  flag as it was, so after an Escape during a drag it is still set.
\<close>

theorem grab_end_returns_to_neutral:
  "scrolling_stopped rng (gtk_range_unmap rng)
   \<and> in_drag (gtk_range_unmap rng) = in_drag rng
   \<and> (drag_gesture_active_for_device event \<and> gdk_event_get_keyval event = Some GDK_KEY_Escape \<and>
      grab_location rng \<noteq> None \<longrightarrow>
        fst (gtk_range_key_press rng event) = GDK_EVENT_STOP \<and>
        scrolling_stopped rng (snd (gtk_range_key_press rng event)) \<and>
        \<not> zoom (snd (gtk_range_key_press rng event)) \<and>
        in_drag (snd (gtk_range_key_press rng event)) = in_drag rng)
   \<and> (double_to_gint x \<noteq> None \<and> double_to_gint y \<noteq> None \<longrightarrow>
        (\<exists>after. gtk_range_multipress_gesture_released rng n_press x y = Some after \<and>
                 scrolling_stopped rng after \<and> \<not> in_drag after))"
proof (intro conjI impI)
  show "scrolling_stopped rng (gtk_range_unmap rng)"
    by (simp add: gtk_range_unmap_def stop_scrolling_stopped)
next
  show "in_drag (gtk_range_unmap rng) = in_drag rng"
    by (simp add: gtk_range_unmap_def stop_scrolling_in_drag)
next
  assume a: "drag_gesture_active_for_device event \<and>
             gdk_event_get_keyval event = Some GDK_KEY_Escape \<and> grab_location rng \<noteq> None"
  then have k: "gtk_range_key_press rng event = (GDK_EVENT_STOP, stop_scrolling rng)"
    by (simp add: gtk_range_key_press_def)
  show "fst (gtk_range_key_press rng event) = GDK_EVENT_STOP" by (simp add: k)
  show "scrolling_stopped rng (snd (gtk_range_key_press rng event))"
    by (simp add: k stop_scrolling_stopped)
  show "\<not> zoom (snd (gtk_range_key_press rng event))"
    using a stop_scrolling_stopped[of rng] by (auto simp: k scrolling_stopped_def)
  show "in_drag (snd (gtk_range_key_press rng event)) = in_drag rng"
    by (simp add: k stop_scrolling_in_drag)
next
  assume "double_to_gint x \<noteq> None \<and> double_to_gint y \<noteq> None"
  then obtain mx my where m: "double_to_gint x = Some mx" "double_to_gint y = Some my" by auto
  let ?r = "rng\<lparr>mouse_x := mx, mouse_y := my, in_drag := False\<rparr>"
  have r: "gtk_range_multipress_gesture_released rng n_press x y = Some (stop_scrolling ?r)"
    by (simp add: gtk_range_multipress_gesture_released_def m)
  have "scrolling_stopped ?r (stop_scrolling ?r)" by (rule stop_scrolling_stopped)
  then have "scrolling_stopped rng (stop_scrolling ?r)"
    by (simp add: scrolling_stopped_cong[of ?r rng])
  moreover have "\<not> in_drag (stop_scrolling ?r)" by (simp add: stop_scrolling_in_drag)
  ultimately show "\<exists>after. gtk_range_multipress_gesture_released rng n_press x y = Some after \<and>
                 scrolling_stopped rng after \<and> \<not> in_drag after"
    using r by blast
qed

lemma gint_of_small: "double_to_gint 40 = Some 40" "double_to_gint 12 = Some 12"
  by (simp_all add: double_to_gint_def)

theorem grab_end_returns_to_neutral_witness:
  "drag_gesture_active_for_device
      \<lparr>gdk_event_get_keyval = Some GDK_KEY_Escape, drag_gesture_active_for_device = True\<rparr>
   \<and> grab_location (gtk_range_init\<lparr>grab_location := Some slider_widget, zoom := True, in_drag := True,
        autoscroll_mode := GTK_SCROLL_STEP_FORWARD, autoscroll_id := 3, tick_callbacks := {3}\<rparr>) \<noteq> None
   \<and> snd (gtk_range_key_press
        (gtk_range_init\<lparr>grab_location := Some slider_widget, zoom := True, in_drag := True,
           autoscroll_mode := GTK_SCROLL_STEP_FORWARD, autoscroll_id := 3, tick_callbacks := {3}\<rparr>)
        \<lparr>gdk_event_get_keyval = Some GDK_KEY_Escape, drag_gesture_active_for_device = True\<rparr>)
      = gtk_range_init\<lparr>in_drag := True, slide_initial_slider_position := - 1\<rparr>
   \<and> in_drag (snd (gtk_range_key_press
        (gtk_range_init\<lparr>grab_location := Some slider_widget, zoom := True, in_drag := True,
           autoscroll_mode := GTK_SCROLL_STEP_FORWARD, autoscroll_id := 3, tick_callbacks := {3}\<rparr>)
        \<lparr>gdk_event_get_keyval = Some GDK_KEY_Escape, drag_gesture_active_for_device = True\<rparr>))
   \<and> double_to_gint 40 \<noteq> None \<and> double_to_gint 12 \<noteq> None
   \<and> gtk_range_multipress_gesture_released
        (gtk_range_init\<lparr>grab_location := Some trough_widget, in_drag := True,
           timer := Some \<lparr>timeout_id = 7, timer_step = GTK_SCROLL_PAGE_FORWARD\<rparr>,
           timeout_sources := {7}\<rparr>) 1 40 12
      = Some (gtk_range_init\<lparr>mouse_x := 40, mouse_y := 12, slide_initial_slider_position := - 1\<rparr>)"
proof -
  let ?E = "\<lparr>gdk_event_get_keyval = Some GDK_KEY_Escape, drag_gesture_active_for_device = True\<rparr>"
  let ?R = "gtk_range_init\<lparr>grab_location := Some slider_widget, zoom := True, in_drag := True,
        autoscroll_mode := GTK_SCROLL_STEP_FORWARD, autoscroll_id := 3, tick_callbacks := {3}\<rparr>"
  let ?S = "gtk_range_init\<lparr>grab_location := Some trough_widget, in_drag := True,
           timer := Some \<lparr>timeout_id = 7, timer_step = GTK_SCROLL_PAGE_FORWARD\<rparr>,
           timeout_sources := {7}\<rparr>"
  have "scrolling_stopped ?R (snd (gtk_range_key_press ?R ?E))
        \<and> in_drag (snd (gtk_range_key_press ?R ?E))"
    using grab_end_returns_to_neutral[of ?R ?E 40 12 1] by (simp add: gtk_range_init_def)
  moreover have "snd (gtk_range_key_press ?R ?E)
      = gtk_range_init\<lparr>in_drag := True, slide_initial_slider_position := - 1\<rparr>"
    by (simp add: gtk_range_key_press_def stop_scrolling_def remove_autoscroll_def
        gtk_range_remove_step_timer_def range_grab_remove_def update_zoom_state_def
        gtk_range_init_def)
  moreover have "gtk_range_multipress_gesture_released ?S 1 40 12
      = Some (gtk_range_init\<lparr>mouse_x := 40, mouse_y := 12, slide_initial_slider_position := - 1\<rparr>)"
    by (simp add: gtk_range_multipress_gesture_released_def gint_of_small stop_scrolling_def
        remove_autoscroll_def gtk_range_remove_step_timer_def range_grab_remove_def
        update_zoom_state_def gtk_range_init_def)
  ultimately show ?thesis by (simp add: gint_of_small gtk_range_init_def)
qed

text \<open>
  The failing input: a slider drag, ended by Escape or by unmap. Both call
  \<^verbatim>\<open>stop_scrolling\<close> only, which does not touch the in-drag flag, the field the source
  documents as ``whether dragging is ongoing'': the flag is still set when no drag is
  going on. And since it is still set after Escape, a Shift key press then turns the zoom
  mode on with no grab, and the button release that follows leaves it on, because
  \<^verbatim>\<open>range_grab_remove\<close> returns early without a grab.
\<close>

lemma shift_l_point: "double_to_gint 60 = Some 60"
  by (simp add: double_to_gint_def)

theorem escape_keeps_in_drag_counterexample:
  "fst (gtk_range_key_press
        (gtk_range_init\<lparr>grab_location := Some slider_widget, in_drag := True\<rparr>)
        \<lparr>gdk_event_get_keyval = Some GDK_KEY_Escape, drag_gesture_active_for_device = True\<rparr>)
     = GDK_EVENT_STOP
   \<and> in_drag (snd (gtk_range_key_press
        (gtk_range_init\<lparr>grab_location := Some slider_widget, in_drag := True\<rparr>)
        \<lparr>gdk_event_get_keyval = Some GDK_KEY_Escape, drag_gesture_active_for_device = True\<rparr>))
   \<and> in_drag (gtk_range_unmap (gtk_range_init\<lparr>grab_location := Some slider_widget, in_drag := True\<rparr>))
   \<and> map_option zoom
        (gtk_range_multipress_gesture_released
          (snd (gtk_range_key_press
            (snd (gtk_range_key_press
              (gtk_range_init\<lparr>grab_location := Some slider_widget, in_drag := True\<rparr>)
              \<lparr>gdk_event_get_keyval = Some GDK_KEY_Escape, drag_gesture_active_for_device = True\<rparr>))
            \<lparr>gdk_event_get_keyval = Some GDK_KEY_Shift_L, drag_gesture_active_for_device = True\<rparr>))
          1 60 10)
     = Some True"
  by (simp add: gtk_range_key_press_def gtk_range_unmap_def stop_scrolling_def
        remove_autoscroll_def gtk_range_remove_step_timer_def range_grab_remove_def
        update_zoom_state_def gtk_range_multipress_gesture_released_def shift_l_point
        gint_of_small double_to_gint_def gtk_range_init_def)

end
